theory Spec2Isabelle
  imports Main
begin

section \<open>JavaScript values\<close>

text \<open>
  An \<open>Error\<close> object is its \<open>name\<close> and its \<open>message\<close>. A promise is observed in one of
  three ways: it resolves with a value, it rejects with an error, or it never settles.
\<close>

datatype js_error = JsError (name: string) (message: string)

datatype 'a promise = Resolved 'a | Rejected js_error | Pending

text \<open>
  Template literals print numbers in decimal; the numbers of this program are
  integers (attempt counters, HTTP status codes, seconds).
\<close>

definition digit_char :: "nat \<Rightarrow> char" where
  "digit_char d = ''0123456789'' ! d"

function decimal :: "nat \<Rightarrow> string" where
  "decimal n =
     (if n div 10 = 0 then [digit_char n]
      else decimal (n div 10) @ [digit_char (n mod 10)])"
  by pat_completeness auto
termination
  by (relation "measure (\<lambda>n. n)") auto

declare decimal.simps [simp del]

definition show_number :: "int \<Rightarrow> string" where
  "show_number i = (if 0 \<le> i then decimal (nat i) else CHR ''-'' # decimal (nat (- i)))"


section \<open>The resilient remote call: \<open>resilientFetch\<close>\<close>

text \<open>
  What \<open>fetch\<close> answers is the environment of the program: \<open>fetch url k\<close> is the promise
  returned by the \<open>k\<close>-th call \<open>fetch(url, {...options, signal})\<close> of one run of
  \<open>resilientFetch\<close>. A response carries \<open>ok\<close>, \<open>status\<close> and the promise of \<open>text()\<close>.
  The \<open>options\<close> object and the signal of the \<open>AbortController\<close> are only handed to
  \<open>fetch\<close>; the controller is created once and \<open>abort\<close> is called nowhere in the source.
\<close>

datatype response = Response (ok: bool) (http_status: int) (body_text: "string promise")

type_synonym net = "string \<Rightarrow> nat \<Rightarrow> response promise"

text \<open>
  The \<open>try\<close> block of one attempt: await the fetch, throw on a response that is not
  \<open>ok\<close>, otherwise return the awaited body. A promise that never settles keeps the
  block waiting.
\<close>

definition attempt_body :: "response promise \<Rightarrow> string promise" where
  "attempt_body r =
     (case r of
        Pending \<Rightarrow> Pending
      | Rejected error \<Rightarrow> Rejected error
      | Resolved resp \<Rightarrow>
          if \<not> ok resp
          then Rejected (JsError ''Error''
                 (''HTTP error! Status: '' @ show_number (http_status resp)))
          else body_text resp)"

text \<open>
  A run of \<open>resilientFetch\<close> is observed through the promise it returns (\<open>None\<close> is
  JavaScript's \<open>undefined\<close>), the number of \<open>fetch\<close> calls it made and the lines it
  wrote with \<open>console.log\<close>.
\<close>

record fetch_run =
  result :: "string option promise"
  calls :: nat
  console :: "string list"

definition failed_attempt :: "string \<Rightarrow> fetch_run \<Rightarrow> fetch_run" where
  "failed_attempt line r = r\<lparr>calls := Suc (calls r), console := line # console r\<rparr>"

function resilientFetch_loop :: "net \<Rightarrow> string \<Rightarrow> int \<Rightarrow> int \<Rightarrow> fetch_run" where
  "resilientFetch_loop fetch url retries attempt =
     (if attempt \<le> retries then
        (case attempt_body (fetch url (nat attempt)) of
           Resolved txt \<Rightarrow> \<lparr>result = Resolved (Some txt), calls = 1, console = []\<rparr>
         | Pending \<Rightarrow> \<lparr>result = Pending, calls = 1, console = []\<rparr>
         | Rejected error \<Rightarrow>
             failed_attempt
               (''Attempt '' @ show_number attempt @ '' failed: '' @ message error)
               (if attempt = retries \<or> name error = ''AbortError''
                then \<lparr>result = Rejected (JsError ''Error''
                        (''Failed after '' @ show_number retries @ '' attempts: ''
                           @ message error)),
                      calls = 0, console = []\<rparr>
                else resilientFetch_loop fetch url retries (attempt + 1)))
      else \<lparr>result = Resolved None, calls = 0, console = []\<rparr>)"
  by pat_completeness auto
termination
  by (relation "measure (\<lambda>(fetch, url, retries, attempt). nat (retries + 1 - attempt))") auto

declare resilientFetch_loop.simps [simp del]

text \<open>
  \<open>resilientFetch(url, options, retries, timeout)\<close>: the loop starts at attempt 1.
  The parameter \<open>timeout\<close> occurs nowhere in the body.
\<close>

definition resilientFetch :: "net \<Rightarrow> string \<Rightarrow> int \<Rightarrow> int \<Rightarrow> fetch_run" where
  "resilientFetch fetch url retries timeout = resilientFetch_loop fetch url retries 1"


section \<open>The elapsed timer\<close>

text \<open>
  Modelled from the spec: the class \<open>Timer\<close> comes from the package \<open>timer-node\<close>, whose
  source is not part of this repository. Its contract is the one of the elapsed timer:
  \<open>start\<close> begins counting from zero if not already started; \<open>pause\<close> freezes the count;
  \<open>resume\<close> continues from the frozen count and does nothing if not paused; \<open>stop\<close> resets
  the running/paused flags and retains the last elapsed value until \<open>clear\<close> zeroes it;
  the elapsed milliseconds are the accumulated duration while running and the frozen
  value otherwise. Pausing, resuming or stopping a timer that is not in the matching
  state does nothing. The timer reads the wall clock, which is passed as \<open>now\<close>.
\<close>

datatype phase = Idle | Running | Paused | Stopped

record timer =
  phase :: phase
  since :: int
  elapsed :: int

definition timer_new :: timer where
  "timer_new = \<lparr>phase = Idle, since = 0, elapsed = 0\<rparr>"

definition isStarted :: "timer \<Rightarrow> bool" where
  "isStarted t = (phase t \<noteq> Idle)"

definition isPaused :: "timer \<Rightarrow> bool" where
  "isPaused t = (phase t = Paused)"

definition isStopped :: "timer \<Rightarrow> bool" where
  "isStopped t = (phase t = Stopped)"

definition timer_ms :: "int \<Rightarrow> timer \<Rightarrow> int" where
  "timer_ms now t = (if phase t = Running then elapsed t + (now - since t) else elapsed t)"

definition timer_start :: "int \<Rightarrow> timer \<Rightarrow> timer" where
  "timer_start now t =
     (if isStarted t \<and> \<not> isStopped t then t
      else \<lparr>phase = Running, since = now, elapsed = 0\<rparr>)"

definition timer_pause :: "int \<Rightarrow> timer \<Rightarrow> timer" where
  "timer_pause now t =
     (if phase t = Running then t\<lparr>phase := Paused, elapsed := timer_ms now t\<rparr> else t)"

definition timer_resume :: "int \<Rightarrow> timer \<Rightarrow> timer" where
  "timer_resume now t =
     (if phase t = Paused then t\<lparr>phase := Running, since := now\<rparr> else t)"

definition timer_stop :: "int \<Rightarrow> timer \<Rightarrow> timer" where
  "timer_stop now t =
     (if phase t = Idle then t else t\<lparr>phase := Stopped, elapsed := timer_ms now t\<rparr>)"

definition timer_clear :: "timer \<Rightarrow> timer" where
  "timer_clear t = \<lparr>phase = Idle, since = 0, elapsed = 0\<rparr>"


section \<open>The state of \<open>FakePlayer\<close> and of the runtime around it\<close>

text \<open>
  Modelled from the spec: \<open>PLAYER_STATUSES\<close> is declared in the library this example
  is built on; the statuses of the simulator are STOPPED (initial), PLAYING and PAUSED.
\<close>

datatype player_status = STOPPED | PLAYING | PAUSED

record volume =
  level :: int
  muted :: bool

datatype video = Video (video_id: string)

text \<open>
  What \<open>videoLoader.getInfo\<close> resolves with: \<open>None\<close> is \<open>null\<close>, and a duration that is
  absent is \<open>None\<close>.
\<close>

datatype video_info = VideoInfo (title: string) (info_duration: "int option")

text \<open>
  A timer armed with \<open>setTimeout\<close>: its handle, the clock value at which it was armed
  and the delay in milliseconds that the program asked for. The event loop of Node does
  not wait for a delay below 1 or above 2147483647 milliseconds: it sets such a delay
  to 1. A timer is due once its effective delay has passed.
\<close>

record scheduled =
  handle :: nat
  armed_at :: int
  delay :: int

definition setTimeout_delay :: "int \<Rightarrow> int" where
  "setTimeout_delay ms = (if ms < 1 \<or> 2147483647 < ms then 1 else ms)"

definition due :: "scheduled \<Rightarrow> int" where
  "due x = armed_at x + setTimeout_delay (delay x)"

text \<open>
  The fields of the class, with \<open>status\<close> inherited from \<open>Player\<close>, and the runtime the
  code acts on: \<open>clock\<close> is what \<open>Date.now()\<close> returns (milliseconds), \<open>pending\<close> the
  timers armed in the event loop and not yet fired or cleared, \<open>nextHandle\<close> the supply
  of fresh timer handles. \<open>nextCalls\<close> counts the calls of \<open>next()\<close> made to the playlist.
  Calls to the logger leave no trace in this state, and the \<open>fakeState\<close> event, which
  only reads the state through the accessors, is not part of it.
\<close>

record player =
  status :: player_status
  currentVideoId :: "string option"
  currentVideoTitle :: "string option"
  timer :: timer
  seekOffset :: int
  duration :: int
  timeout :: "nat option"
  volume :: volume
  clock :: int
  pending :: "scheduled list"
  nextHandle :: nat
  nextCalls :: nat

definition constructor :: "int \<Rightarrow> player" where
  "constructor now =
     \<lparr>status = STOPPED, currentVideoId = None, currentVideoTitle = None,
      timer = timer_new, seekOffset = 0, duration = 0, timeout = None,
      volume = \<lparr>level = 50, muted = False\<rparr>,
      clock = now, pending = [], nextHandle = 0, nextCalls = 0\<rparr>"

type_synonym 'a action = "player \<Rightarrow> 'a promise \<times> player"


section \<open>The deferred end-of-video callback\<close>

definition clearTimeout :: "nat \<Rightarrow> scheduled list \<Rightarrow> scheduled list" where
  "clearTimeout h ps = filter (\<lambda>x. handle x \<noteq> h) ps"

definition resetTimeout :: "player \<Rightarrow> player" where
  "resetTimeout w =
     (case timeout w of
        None \<Rightarrow> w
      | Some h \<Rightarrow> w\<lparr>pending := clearTimeout h (pending w), timeout := None\<rparr>)"

text \<open>
  \<open>setTimeout(callback, (duration + 1) * 1000)\<close> arms a fresh timer, now, with that many
  milliseconds as its delay. The program has one callback, so an armed timer stands
  for it.
\<close>

definition startTimeout :: "int \<Rightarrow> player \<Rightarrow> player" where
  "startTimeout d w =
     (let w1 = resetTimeout w;
          h = nextHandle w1
      in w1\<lparr>timeout := Some h,
            pending := pending w1 @ [\<lparr>handle = h, armed_at = clock w1, delay = (d + 1) * 1000\<rparr>],
            nextHandle := Suc h\<rparr>)"

text \<open>
  The body of the callback. \<open>pause\<close> and \<open>next\<close> are methods of the base class and are
  parameters here. A rejection of the awaited \<open>pause()\<close> leaves the rest of the body
  unexecuted, and so does a \<open>pause()\<close> that never settles.
\<close>

definition timeoutCallback :: "bool action \<Rightarrow> bool action \<Rightarrow> player \<Rightarrow> player" where
  "timeoutCallback pause_m next_m w =
     (case pause_m w of
        (Resolved b, w1) \<Rightarrow>
          (let w2 = w1\<lparr>seekOffset := 0\<rparr>;
               w3 = w2\<lparr>timer := timer_clear (timer_stop (clock w2) (timer w2))\<rparr>
           in snd (next_m w3))
      | (Rejected error, w1) \<Rightarrow> w1
      | (Pending, w1) \<Rightarrow> w1)"


section \<open>The local transitions\<close>

definition fakeResume :: "bool action" where
  "fakeResume w =
     (let w1 = (if isPaused (timer w) then w\<lparr>timer := timer_resume (clock w) (timer w)\<rparr>
                else if isStopped (timer w) \<or> \<not> isStarted (timer w)
                then w\<lparr>timer := timer_start (clock w) (timer w)\<rparr>
                else w)
      in (Resolved True, startTimeout (duration w1 - seekOffset w1) w1))"

text \<open>
  \<open>#fakePlay\<close> awaits the loader between its two halves; \<open>getInfo\<close> is the loader.
\<close>

definition fakePlay :: "(video \<Rightarrow> video_info option) \<Rightarrow> video \<Rightarrow> int \<Rightarrow> bool action" where
  "fakePlay getInfo v position w =
     (let w1 = w\<lparr>seekOffset := position\<rparr>;
          w2 = w1\<lparr>timer := timer_stop (clock w1) (timer w1)\<rparr>;
          w3 = resetTimeout w2
      in case getInfo v of
           Some info \<Rightarrow>
             (let d = (case info_duration info of None \<Rightarrow> 0 | Some x \<Rightarrow> x);
                  w4 = w3\<lparr>currentVideoId := Some (video_id v)\<rparr>;
                  w5 = w4\<lparr>currentVideoTitle := Some (title info)\<rparr>;
                  w6 = w5\<lparr>timer := timer_start (clock w5) (timer w5)\<rparr>;
                  w7 = startTimeout (d - seekOffset w6) w6
              in (Resolved True, w7\<lparr>duration := d\<rparr>))
         | None \<Rightarrow> (Resolved False, w3))"

definition fakePause :: "bool action" where
  "fakePause w =
     (Resolved True, resetTimeout (w\<lparr>timer := timer_pause (clock w) (timer w)\<rparr>))"

definition fakeStop :: "bool action" where
  "fakeStop w =
     (let w1 = w\<lparr>seekOffset := 0\<rparr>;
          w2 = w1\<lparr>timer := timer_clear (timer_stop (clock w1) (timer w1))\<rparr>
      in (Resolved True, resetTimeout w2))"

definition fakeSeek :: "int \<Rightarrow> bool action" where
  "fakeSeek position w =
     (let w1 = w\<lparr>timer := timer_clear (timer_stop (clock w) (timer w))\<rparr>;
          w2 = w1\<lparr>seekOffset := position\<rparr>;
          w3 = resetTimeout w2
      in if status w3 = PLAYING then fakeResume w3 else (Resolved True, w3))"


section \<open>The operations of the player\<close>

text \<open>
  \<open>await resilientFetch(...)\<close> followed by the rest of the method: a rejection of the
  awaited call rejects the method at that point, a call that never settles leaves the
  method suspended there.
\<close>

definition await_fetch :: "fetch_run \<Rightarrow> bool action \<Rightarrow> bool action" where
  "await_fetch r rest w =
     (case result r of
        Resolved body \<Rightarrow> rest w
      | Rejected error \<Rightarrow> (Rejected error, w)
      | Pending \<Rightarrow> (Pending, w))"

definition doPlay :: "net \<Rightarrow> (video \<Rightarrow> video_info option) \<Rightarrow> video \<Rightarrow> int \<Rightarrow> bool action" where
  "doPlay fetch getInfo v position =
     await_fetch (resilientFetch fetch (''http://localhost:1984/play/'' @ video_id v) 5 30000)
       (fakePlay getInfo v position)"

definition doPause :: "net \<Rightarrow> bool action" where
  "doPause fetch =
     await_fetch (resilientFetch fetch ''http://localhost:1984/pause'' 5 30000) fakePause"

definition doResume :: "net \<Rightarrow> bool action" where
  "doResume fetch =
     await_fetch (resilientFetch fetch ''http://localhost:1984/resume'' 5 30000) fakeResume"

definition doStop :: "net \<Rightarrow> bool action" where
  "doStop fetch =
     await_fetch (resilientFetch fetch ''http://localhost:1984/stop'' 5 30000) fakeStop"

definition doSeek :: "net \<Rightarrow> int \<Rightarrow> bool action" where
  "doSeek fetch position =
     await_fetch
       (resilientFetch fetch (''http://localhost:1984/seek/'' @ show_number position) 5 30000)
       (fakeSeek position)"

text \<open>\<open>doSetVolume\<close> starts the remote call and does not await it.\<close>

definition doSetVolume :: "net \<Rightarrow> volume \<Rightarrow> bool action" where
  "doSetVolume fetch v w =
     (let w1 = w\<lparr>volume := v\<rparr>;
          unawaited = resilientFetch fetch
            (''http://localhost:1984/volume/'' @ show_number (level v)) 5 30000
      in (Resolved True, w1))"


definition doGetPosition :: "player \<Rightarrow> int" where
  "doGetPosition w = seekOffset w + timer_ms (clock w) (timer w) div 1000"

definition doGetDuration :: "player \<Rightarrow> int" where
  "doGetDuration w = duration w"


section \<open>The public methods of the base class\<close>

text \<open>
  Modelled from the spec: the methods \<open>play\<close>, \<open>pause\<close>, \<open>resume\<close>, \<open>stop\<close>, \<open>seek\<close>,
  \<open>setVolume\<close> and \<open>next\<close> of the base class \<open>Player\<close>, which call the \<open>do\<close>-methods
  and own \<open>status\<close>, are not among the sources. By the transition table of the
  simulator the resulting status is PLAYING after a play or a resume that succeeded,
  PAUSED after a pause, STOPPED after a stop, and unchanged after a seek, after a volume
  change and after a play whose metadata load failed. \<open>next\<close> signals "advance to the next
  item" to the playlist, an external collaborator: the call is counted.
\<close>

definition with_status :: "player_status \<Rightarrow> bool promise \<times> player \<Rightarrow> bool promise \<times> player" where
  "with_status st r = (if fst r = Resolved True then (fst r, (snd r)\<lparr>status := st\<rparr>) else r)"

definition play :: "net \<Rightarrow> (video \<Rightarrow> video_info option) \<Rightarrow> video \<Rightarrow> int \<Rightarrow> bool action" where
  "play fetch getInfo v position w = with_status PLAYING (doPlay fetch getInfo v position w)"

definition pause :: "net \<Rightarrow> bool action" where
  "pause fetch w = with_status PAUSED (doPause fetch w)"

definition resume :: "net \<Rightarrow> bool action" where
  "resume fetch w = with_status PLAYING (doResume fetch w)"

definition stop :: "net \<Rightarrow> bool action" where
  "stop fetch w = with_status STOPPED (doStop fetch w)"

definition seek :: "net \<Rightarrow> int \<Rightarrow> bool action" where
  "seek fetch position w = doSeek fetch position w"

definition setVolume :: "net \<Rightarrow> volume \<Rightarrow> bool action" where
  "setVolume fetch v w = doSetVolume fetch v w"

definition player_next :: "bool action" where
  "player_next w = (Resolved True, w\<lparr>nextCalls := Suc (nextCalls w)\<rparr>)"


section \<open>Runs of the player\<close>

text \<open>
  What happens to a player: a method is called (with the answers of the network and of
  the loader during that call), the clock advances by some milliseconds, or the event
  loop fires the armed callback. The clock cannot pass the due time of an armed timer
  without that timer firing first, and a timer fires only once it is due; firing
  removes it from the event loop.
\<close>

datatype event =
    Play net "video \<Rightarrow> video_info option" video int
  | Pause net
  | Resume net
  | Stop net
  | Seek net int
  | SetVolume net volume
  | Tick nat
  | Fire net

definition tick :: "nat \<Rightarrow> player \<Rightarrow> player option" where
  "tick d w =
     (if list_all (\<lambda>x. clock w + int d \<le> due x) (pending w)
      then Some (w\<lparr>clock := clock w + int d\<rparr>) else None)"

definition fire :: "net \<Rightarrow> player \<Rightarrow> player option" where
  "fire fetch w =
     (case find (\<lambda>x. due x \<le> clock w) (pending w) of
        None \<Rightarrow> None
      | Some x \<Rightarrow>
          Some (timeoutCallback (pause fetch) player_next (w\<lparr>pending := remove1 x (pending w)\<rparr>)))"

fun step :: "event \<Rightarrow> player \<Rightarrow> player option" where
  "step (Play fetch getInfo v position) w = Some (snd (play fetch getInfo v position w))"
| "step (Pause fetch) w = Some (snd (pause fetch w))"
| "step (Resume fetch) w = Some (snd (resume fetch w))"
| "step (Stop fetch) w = Some (snd (stop fetch w))"
| "step (Seek fetch position) w = Some (snd (seek fetch position w))"
| "step (SetVolume fetch v) w = Some (snd (setVolume fetch v w))"
| "step (Tick d) w = tick d w"
| "step (Fire fetch) w = fire fetch w"

fun run :: "event list \<Rightarrow> player \<Rightarrow> player option" where
  "run [] w = Some w"
| "run (e # es) w = (case step e w of None \<Rightarrow> None | Some w' \<Rightarrow> run es w')"

text \<open>
  At most one callback is armed, the field \<open>timeout\<close> holds its handle, and handles
  not yet handed out are not in use.
\<close>

definition one_pending :: "player \<Rightarrow> bool" where
  "one_pending w =
     (length (pending w) \<le> 1
      \<and> list_all (\<lambda>x. timeout w = Some (handle x) \<and> handle x < nextHandle w) (pending w))"

text \<open>
  The offset and the frozen part of the timer are not negative, and a running timer
  was started in the past.
\<close>

definition nonneg :: "player \<Rightarrow> bool" where
  "nonneg w =
     (0 \<le> seekOffset w \<and> 0 \<le> elapsed (timer w)
      \<and> (phase (timer w) = Running \<longrightarrow> since (timer w) \<le> clock w))"

text \<open>The bound on the reported position: between 0 and the reported duration plus one.\<close>

definition within_bounds :: "player \<Rightarrow> bool" where
  "within_bounds w = (0 \<le> doGetPosition w \<and> doGetPosition w \<le> doGetDuration w + 1)"

fun position_nonneg :: "event \<Rightarrow> bool" where
  "position_nonneg (Play fetch getInfo v position) = (0 \<le> position)"
| "position_nonneg (Seek fetch position) = (0 \<le> position)"
| "position_nonneg e = True"


section \<open>Concrete networks, loaders and players\<close>

definition reachable :: net where
  "reachable url k = Resolved (Response True 200 (Resolved ''OK''))"

definition unreachable :: net where
  "unreachable url k = Rejected (JsError ''TypeError'' ''fetch failed'')"

definition fails_four_times :: net where
  "fails_four_times url k =
     (if k < 5 then Resolved (Response False 503 (Resolved ''busy''))
      else Resolved (Response True 200 (Resolved ''OK'')))"

definition aborted_second :: net where
  "aborted_second url k =
     (if k = 2 then Rejected (JsError ''AbortError'' ''This operation was aborted'')
      else Rejected (JsError ''TypeError'' ''fetch failed''))"

definition never_answers :: net where
  "never_answers url k = Pending"

definition ten_seconds :: "video \<Rightarrow> video_info option" where
  "ten_seconds v = Some (VideoInfo ''Song'' (Some 10))"


definition playing_A :: player where
  "playing_A = snd (play reachable ten_seconds (Video ''A'') 0 (constructor 0))"

definition played_3s :: player where
  "played_3s = playing_A\<lparr>clock := 3000\<rparr>"


section \<open>Properties of the resilient remote call\<close>

text \<open>
  While the attempts \<open>a, \<dots>, k - 1\<close> fail with an error that is not an \<open>AbortError\<close>,
  the loop goes on: it ends as it ends from attempt \<open>k\<close>, after \<open>k - a\<close> more calls.
\<close>

lemma loop_skips_failures:
  assumes "a \<le> k" and "k \<le> retries"
    and "\<forall>i. a \<le> i \<and> i < k \<longrightarrow>
           (\<exists>e. attempt_body (fetch url (nat i)) = Rejected e \<and> name e \<noteq> ''AbortError'')"
  shows "result (resilientFetch_loop fetch url retries a)
           = result (resilientFetch_loop fetch url retries k)
       \<and> calls (resilientFetch_loop fetch url retries a)
           = nat (k - a) + calls (resilientFetch_loop fetch url retries k)"
  using assms
proof (induction "nat (k - a)" arbitrary: a)
  case 0
  then have "a = k" by simp
  then show ?case by simp
next
  case (Suc n)
  then have lt: "a < k" by linarith
  with Suc.prems obtain e
    where e: "attempt_body (fetch url (nat a)) = Rejected e" "name e \<noteq> ''AbortError''"
    by force
  have n: "n = nat (k - (a + 1))" using Suc.hyps(2) by linarith
  have IH: "result (resilientFetch_loop fetch url retries (a + 1))
              = result (resilientFetch_loop fetch url retries k)
       \<and> calls (resilientFetch_loop fetch url retries (a + 1))
              = nat (k - (a + 1)) + calls (resilientFetch_loop fetch url retries k)"
    using Suc.hyps(1)[OF n] Suc.prems lt by simp
  have unfold: "resilientFetch_loop fetch url retries a =
     failed_attempt (''Attempt '' @ show_number a @ '' failed: '' @ message e)
       (resilientFetch_loop fetch url retries (a + 1))"
    using lt Suc.prems(2) e by (subst resilientFetch_loop.simps) simp
  show ?case using IH lt by (simp add: unfold failed_attempt_def nat_diff_distrib)
qed

lemma loop_success:
  assumes "k \<le> retries" and "attempt_body (fetch url (nat k)) = Resolved txt"
  shows "result (resilientFetch_loop fetch url retries k) = Resolved (Some txt)"
    and "calls (resilientFetch_loop fetch url retries k) = 1"
  using assms by (subst resilientFetch_loop.simps, simp)+

lemma loop_gives_up:
  assumes "k \<le> retries" and "attempt_body (fetch url (nat k)) = Rejected e"
    and "k = retries \<or> name e = ''AbortError''"
  shows "result (resilientFetch_loop fetch url retries k) =
           Rejected (JsError ''Error''
             (''Failed after '' @ show_number retries @ '' attempts: '' @ message e))"
    and "calls (resilientFetch_loop fetch url retries k) = 1"
  using assms by (subst resilientFetch_loop.simps, auto simp: failed_attempt_def)+

text \<open>
  If every attempt from \<open>a\<close> to the last one fails, whatever the errors, the call rejects.
\<close>

lemma loop_all_fail:
  assumes "a \<le> retries"
    and "\<forall>i. a \<le> i \<and> i \<le> retries \<longrightarrow> (\<exists>e. attempt_body (fetch url (nat i)) = Rejected e)"
  shows "\<exists>e. result (resilientFetch_loop fetch url retries a) = Rejected e"
  using assms
proof (induction "nat (retries - a)" arbitrary: a)
  case 0
  then have last: "a = retries" by simp
  with "0.prems" obtain e where "attempt_body (fetch url (nat a)) = Rejected e" by blast
  then show ?case
    using last by (subst resilientFetch_loop.simps) (simp add: failed_attempt_def)
next
  case (Suc n)
  then have lt: "a < retries" by linarith
  from Suc.prems obtain e where e: "attempt_body (fetch url (nat a)) = Rejected e" by blast
  have n: "n = nat (retries - (a + 1))" using Suc.hyps(2) by linarith
  have IH: "\<exists>e. result (resilientFetch_loop fetch url retries (a + 1)) = Rejected e"
    using Suc.hyps(1)[OF n] Suc.prems lt by simp
  show ?case
    using lt e IH by (subst resilientFetch_loop.simps) (auto simp: failed_attempt_def)
qed

lemma all_attempts_fail:
  assumes "\<forall>i. 1 \<le> i \<and> i \<le> 5 \<longrightarrow> (\<exists>e. attempt_body (fetch url (nat i)) = Rejected e)"
  shows "\<exists>e. result (resilientFetch fetch url 5 30000) = Rejected e"
  using loop_all_fail[of 1 5 fetch url] assms by (simp add: resilientFetch_def)

text \<open>
  C3: for \<open>retries \<ge> 1\<close>, let the attempts before attempt \<open>k \<le> retries\<close> fail with errors
  that are not abort errors. If attempt \<open>k\<close> succeeds, the call resolves with the body of
  that attempt, after exactly \<open>k\<close> calls of \<open>fetch\<close>. If attempt \<open>k\<close> fails and is the last
  one (\<open>k = retries\<close>) or its error is an \<open>AbortError\<close>, the call rejects, after exactly
  \<open>k\<close> calls, with an error whose message carries the attempt count \<open>retries\<close> and the
  message of that last failure.
\<close>

theorem resilientFetch_outcome:
  assumes "1 \<le> k" and "k \<le> retries"
    and "\<forall>i. 1 \<le> i \<and> i < k \<longrightarrow>
           (\<exists>e. attempt_body (fetch url (nat i)) = Rejected e \<and> name e \<noteq> ''AbortError'')"
  shows "(\<forall>txt. attempt_body (fetch url (nat k)) = Resolved txt \<longrightarrow>
            result (resilientFetch fetch url retries timeoutMs) = Resolved (Some txt)
          \<and> calls (resilientFetch fetch url retries timeoutMs) = nat k)
       \<and> (\<forall>e. attempt_body (fetch url (nat k)) = Rejected e
               \<and> (k = retries \<or> name e = ''AbortError'') \<longrightarrow>
            result (resilientFetch fetch url retries timeoutMs) =
              Rejected (JsError ''Error''
                (''Failed after '' @ show_number retries @ '' attempts: '' @ message e))
          \<and> calls (resilientFetch fetch url retries timeoutMs) = nat k)"
proof -
  have skip: "result (resilientFetch_loop fetch url retries 1)
                = result (resilientFetch_loop fetch url retries k)
            \<and> calls (resilientFetch_loop fetch url retries 1)
                = nat (k - 1) + calls (resilientFetch_loop fetch url retries k)"
    by (rule loop_skips_failures) (use assms in auto)
  have count: "nat (k - 1) + 1 = nat k" using assms(1) by linarith
  show ?thesis
    using skip count loop_success[OF assms(2)] loop_gives_up[OF assms(2)]
    by (simp add: resilientFetch_def)
qed

theorem resilientFetch_outcome_witness:
  "result (resilientFetch fails_four_times ''http://localhost:1984/pause'' 5 30000)
     = Resolved (Some ''OK'')
   \<and> calls (resilientFetch fails_four_times ''http://localhost:1984/pause'' 5 30000) = 5
   \<and> result (resilientFetch unreachable ''http://localhost:1984/pause'' 5 30000)
     = Rejected (JsError ''Error'' ''Failed after 5 attempts: fetch failed'')
   \<and> calls (resilientFetch unreachable ''http://localhost:1984/pause'' 5 30000) = 5
   \<and> result (resilientFetch aborted_second ''http://localhost:1984/pause'' 5 30000)
     = Rejected (JsError ''Error'' ''Failed after 5 attempts: This operation was aborted'')
   \<and> calls (resilientFetch aborted_second ''http://localhost:1984/pause'' 5 30000) = 2"
proof -
  have five: "show_number 5 = ''5''" by code_simp
  have a: "\<forall>i. 1 \<le> i \<and> i < (5::int) \<longrightarrow>
      (\<exists>e. attempt_body (fails_four_times ''http://localhost:1984/pause'' (nat i)) = Rejected e
          \<and> name e \<noteq> ''AbortError'')"
    by (auto simp add: fails_four_times_def attempt_body_def)
  have b: "\<forall>i. 1 \<le> i \<and> i < (5::int) \<longrightarrow>
      (\<exists>e. attempt_body (unreachable ''http://localhost:1984/pause'' (nat i)) = Rejected e
          \<and> name e \<noteq> ''AbortError'')"
    by (simp add: unreachable_def attempt_body_def)
  have c: "\<forall>i. 1 \<le> i \<and> i < (2::int) \<longrightarrow>
      (\<exists>e. attempt_body (aborted_second ''http://localhost:1984/pause'' (nat i)) = Rejected e
          \<and> name e \<noteq> ''AbortError'')"
    by (auto simp add: aborted_second_def attempt_body_def)
  show ?thesis
    using resilientFetch_outcome[of 5 5 fails_four_times "''http://localhost:1984/pause''" 30000, OF _ _ a]
      resilientFetch_outcome[of 5 5 unreachable "''http://localhost:1984/pause''" 30000, OF _ _ b]
      resilientFetch_outcome[of 2 5 aborted_second "''http://localhost:1984/pause''" 30000, OF _ _ c]
    by (simp add: fails_four_times_def unreachable_def aborted_second_def attempt_body_def five)
qed

text \<open>
  C10: with \<open>retries \<le> 0\<close> the loop body never runs: the call resolves with \<open>undefined\<close>,
  calls \<open>fetch\<close> zero times and logs nothing.
\<close>

theorem resilientFetch_zero_attempts:
  assumes "retries \<le> 0"
  shows "resilientFetch fetch url retries timeoutMs
           = \<lparr>result = Resolved None, calls = 0, console = []\<rparr>"
  using assms by (simp add: resilientFetch_def resilientFetch_loop.simps)

theorem resilientFetch_zero_attempts_witness:
  "(0::int) \<le> 0 \<and> (-3::int) \<le> 0
   \<and> resilientFetch unreachable ''http://localhost:1984/stop'' 0 30000
       = \<lparr>result = Resolved None, calls = 0, console = []\<rparr>
   \<and> resilientFetch reachable ''http://localhost:1984/stop'' (-3) 5000
       = \<lparr>result = Resolved None, calls = 0, console = []\<rparr>"
  using resilientFetch_zero_attempts[of 0 unreachable "''http://localhost:1984/stop''" 30000]
    resilientFetch_zero_attempts[of "-3" reachable "''http://localhost:1984/stop''" 5000]
  by simp

text \<open>
  C4: the per-attempt timeout is not wired to anything. The run of \<open>resilientFetch\<close> does
  not depend on the value of \<open>timeout\<close>, and against an endpoint that never answers the
  first attempt is never abandoned: the call stays pending after one call of \<open>fetch\<close>,
  whatever the timeout, and no second attempt begins.
\<close>

theorem resilientFetch_timeout_unused:
  "resilientFetch fetch url retries timeoutMs = resilientFetch fetch url retries timeoutMs'
   \<and> resilientFetch never_answers url 5 timeoutMs = \<lparr>result = Pending, calls = 1, console = []\<rparr>"
  by (simp add: resilientFetch_def resilientFetch_loop.simps never_answers_def attempt_body_def)

section \<open>Basic facts about the timeout handle and the invariants\<close>

lemmas timer_defs = timer_ms_def timer_start_def timer_pause_def timer_resume_def
  timer_stop_def timer_clear_def timer_new_def isStarted_def isPaused_def isStopped_def

lemma resetTimeout_keeps [simp]:
  "seekOffset (resetTimeout w) = seekOffset w"
  "timer (resetTimeout w) = timer w"
  "clock (resetTimeout w) = clock w"
  "duration (resetTimeout w) = duration w"
  "status (resetTimeout w) = status w"
  "nextCalls (resetTimeout w) = nextCalls w"
  "nextHandle (resetTimeout w) = nextHandle w"
  "timeout (resetTimeout w) = None"
  by (simp_all add: resetTimeout_def split: option.splits)

lemma startTimeout_keeps [simp]:
  "seekOffset (startTimeout d w) = seekOffset w"
  "timer (startTimeout d w) = timer w"
  "clock (startTimeout d w) = clock w"
  "duration (startTimeout d w) = duration w"
  "status (startTimeout d w) = status w"
  "nextCalls (startTimeout d w) = nextCalls w"
  "timeout (startTimeout d w) = Some (nextHandle w)"
  "nextHandle (startTimeout d w) = Suc (nextHandle w)"
  by (simp_all add: startTimeout_def Let_def)

lemma startTimeout_pending:
  "pending (startTimeout d w)
     = (case timeout w of None \<Rightarrow> pending w | Some h \<Rightarrow> clearTimeout h (pending w))
       @ [\<lparr>handle = nextHandle w, armed_at = clock w, delay = (d + 1) * 1000\<rparr>]"
  by (simp add: startTimeout_def resetTimeout_def Let_def split: option.splits)

subsection \<open>At most one armed callback\<close>

lemma one_pending_fields [simp]:
  "one_pending (w\<lparr>timer := t\<rparr>) = one_pending w"
  "one_pending (w\<lparr>seekOffset := p\<rparr>) = one_pending w"
  "one_pending (w\<lparr>duration := d\<rparr>) = one_pending w"
  "one_pending (w\<lparr>status := st\<rparr>) = one_pending w"
  "one_pending (w\<lparr>volume := vol\<rparr>) = one_pending w"
  "one_pending (w\<lparr>clock := c\<rparr>) = one_pending w"
  "one_pending (w\<lparr>nextCalls := n\<rparr>) = one_pending w"
  "one_pending (w\<lparr>currentVideoId := i\<rparr>) = one_pending w"
  "one_pending (w\<lparr>currentVideoTitle := ti\<rparr>) = one_pending w"
  by (simp_all add: one_pending_def)

lemma one_pending_cases:
  assumes "one_pending w"
  obtains "pending w = []"
  | x where "pending w = [x]" and "timeout w = Some (handle x)" and "handle x < nextHandle w"
proof (cases "pending w")
  case Nil
  then show ?thesis using that(1) by simp
next
  case (Cons x xs)
  then have "xs = []" using assms by (simp add: one_pending_def)
  then show ?thesis using that(2)[of x] Cons assms by (simp add: one_pending_def)
qed

lemma one_pending_length: "one_pending w \<Longrightarrow> length (pending w) \<le> 1"
  by (simp add: one_pending_def)

lemma one_pending_constructor: "one_pending (constructor now)"
  by (simp add: one_pending_def constructor_def)

lemma resetTimeout_one_pending:
  assumes "one_pending w"
  shows "pending (resetTimeout w) = []" and "one_pending (resetTimeout w)"
  using assms
  by (cases w rule: one_pending_cases;
      simp add: one_pending_def resetTimeout_def clearTimeout_def split: option.splits)+

lemma startTimeout_one_pending:
  assumes "one_pending w"
  shows "pending (startTimeout d w)
           = [\<lparr>handle = nextHandle w, armed_at = clock w, delay = (d + 1) * 1000\<rparr>]"
    and "one_pending (startTimeout d w)"
proof -
  show "pending (startTimeout d w)
           = [\<lparr>handle = nextHandle w, armed_at = clock w, delay = (d + 1) * 1000\<rparr>]"
    using resetTimeout_one_pending[OF assms] by (simp add: startTimeout_def Let_def)
  then show "one_pending (startTimeout d w)"
    by (simp add: one_pending_def)
qed

lemma fakeResume_one_pending:
  assumes "one_pending w"
  shows "one_pending (snd (fakeResume w))" and "length (pending (snd (fakeResume w))) = 1"
  using assms by (simp_all add: fakeResume_def Let_def startTimeout_one_pending)

lemma fakePause_one_pending:
  "one_pending w \<Longrightarrow> one_pending (snd (fakePause w))"
  by (simp add: fakePause_def resetTimeout_one_pending)

lemma fakeStop_one_pending:
  "one_pending w \<Longrightarrow> one_pending (snd (fakeStop w))"
  by (simp add: fakeStop_def Let_def resetTimeout_one_pending)

lemma fakeSeek_one_pending:
  assumes "one_pending w"
  shows "one_pending (snd (fakeSeek p w))"
    and "status w = PLAYING \<Longrightarrow> length (pending (snd (fakeSeek p w))) = 1"
proof -
  have inv: "one_pending (resetTimeout (w\<lparr>timer := timer_clear (timer_stop (clock w) (timer w)),
      seekOffset := p\<rparr>))"
    using assms by (simp add: resetTimeout_one_pending)
  show "one_pending (snd (fakeSeek p w))"
    using inv by (simp add: fakeSeek_def Let_def fakeResume_one_pending)
  show "status w = PLAYING \<Longrightarrow> length (pending (snd (fakeSeek p w))) = 1"
    using inv by (simp add: fakeSeek_def Let_def fakeResume_one_pending)
qed

lemma fakePlay_one_pending:
  assumes "one_pending w"
  shows "one_pending (snd (fakePlay getInfo v p w))"
    and "getInfo v \<noteq> None \<Longrightarrow> length (pending (snd (fakePlay getInfo v p w))) = 1"
proof -
  have inv: "one_pending (resetTimeout (w\<lparr>seekOffset := p, timer := timer_stop (clock w) (timer w)\<rparr>))"
    using assms by (simp add: resetTimeout_one_pending)
  show "one_pending (snd (fakePlay getInfo v p w))"
    using inv by (simp add: fakePlay_def Let_def startTimeout_one_pending split: option.splits)
  show "getInfo v \<noteq> None \<Longrightarrow> length (pending (snd (fakePlay getInfo v p w))) = 1"
    using inv by (auto simp add: fakePlay_def Let_def startTimeout_one_pending split: option.splits)
qed

lemma await_fetch_one_pending:
  assumes "one_pending w" and "one_pending (snd (rest w))"
  shows "one_pending (snd (await_fetch r rest w))"
  using assms by (simp add: await_fetch_def split: promise.splits)

lemma with_status_one_pending:
  "one_pending (snd r) \<Longrightarrow> one_pending (snd (with_status st r))"
  by (simp add: with_status_def)

lemma pause_one_pending: "one_pending w \<Longrightarrow> one_pending (snd (pause fetch w))"
  by (simp add: pause_def doPause_def with_status_one_pending await_fetch_one_pending
        fakePause_one_pending)

lemma timeoutCallback_one_pending:
  assumes "one_pending w"
  shows "one_pending (timeoutCallback (pause fetch) player_next w)"
proof -
  have "one_pending (snd (pause fetch w))" using assms by (rule pause_one_pending)
  then show ?thesis
    by (cases "pause fetch w"; cases "fst (pause fetch w)")
       (simp_all add: timeoutCallback_def player_next_def Let_def)
qed

lemma fire_one_pending:
  assumes "one_pending w" and "fire fetch w = Some w'"
  shows "one_pending w'"
proof -
  from assms(2) obtain x where x: "find (\<lambda>x. due x \<le> clock w) (pending w) = Some x"
    and w': "w' = timeoutCallback (pause fetch) player_next (w\<lparr>pending := remove1 x (pending w)\<rparr>)"
    by (auto simp: fire_def split: option.splits)
  have "one_pending (w\<lparr>pending := remove1 x (pending w)\<rparr>)"
    using assms(1) x
    by (cases w rule: one_pending_cases) (auto simp: one_pending_def split: if_splits)
  then show ?thesis unfolding w' by (rule timeoutCallback_one_pending)
qed

lemma step_one_pending:
  assumes "one_pending w" and "step e w = Some w'"
  shows "one_pending w'"
proof (cases e)
  case (Play fetch getInfo v p)
  then show ?thesis using assms
    by (auto simp: play_def doPlay_def with_status_one_pending await_fetch_one_pending
          fakePlay_one_pending)
next
  case (Pause fetch)
  then show ?thesis using assms by (auto simp: pause_one_pending)
next
  case (Resume fetch)
  then show ?thesis using assms
    by (auto simp: resume_def doResume_def with_status_one_pending await_fetch_one_pending
          fakeResume_one_pending)
next
  case (Stop fetch)
  then show ?thesis using assms
    by (auto simp: stop_def doStop_def with_status_one_pending await_fetch_one_pending
          fakeStop_one_pending)
next
  case (Seek fetch p)
  then show ?thesis using assms
    by (auto simp: seek_def doSeek_def await_fetch_one_pending fakeSeek_one_pending)
next
  case (SetVolume fetch vol)
  then show ?thesis using assms by (auto simp: setVolume_def doSetVolume_def Let_def)
next
  case (Tick d)
  then show ?thesis using assms by (auto simp: tick_def split: if_splits)
next
  case (Fire fetch)
  then show ?thesis using assms by (auto intro: fire_one_pending)
qed

lemma run_one_pending:
  "one_pending w \<Longrightarrow> run es w = Some w' \<Longrightarrow> one_pending w'"
proof (induction es arbitrary: w)
  case Nil
  then show ?case by simp
next
  case (Cons e es)
  then show ?case by (auto split: option.splits dest: step_one_pending)
qed

subsection \<open>Offsets and elapsed time are not negative\<close>

lemma nonneg_timeouts [simp]:
  "nonneg (resetTimeout w) = nonneg w" "nonneg (startTimeout d w) = nonneg w"
  by (simp_all add: nonneg_def)

lemma nonneg_fields [simp]:
  "nonneg (w\<lparr>status := st\<rparr>) = nonneg w"
  "nonneg (w\<lparr>duration := d\<rparr>) = nonneg w"
  "nonneg (w\<lparr>volume := vol\<rparr>) = nonneg w"
  "nonneg (w\<lparr>nextCalls := n\<rparr>) = nonneg w"
  "nonneg (w\<lparr>pending := ps\<rparr>) = nonneg w"
  "nonneg (w\<lparr>currentVideoId := i\<rparr>) = nonneg w"
  "nonneg (w\<lparr>currentVideoTitle := ti\<rparr>) = nonneg w"
  by (simp_all add: nonneg_def)

lemma nonneg_timer_ops:
  assumes "nonneg w"
  shows "nonneg (w\<lparr>timer := timer_pause (clock w) (timer w)\<rparr>)"
    and "nonneg (w\<lparr>timer := timer_resume (clock w) (timer w)\<rparr>)"
    and "nonneg (w\<lparr>timer := timer_start (clock w) (timer w)\<rparr>)"
    and "nonneg (w\<lparr>timer := timer_stop (clock w) (timer w)\<rparr>)"
    and "0 \<le> p \<Longrightarrow> nonneg (w\<lparr>timer := timer_clear t, seekOffset := p\<rparr>)"
    and "0 \<le> p \<Longrightarrow> nonneg (w\<lparr>seekOffset := p, timer := timer_clear t\<rparr>)"
  using assms by (auto simp: nonneg_def timer_defs)

lemma fakeResume_nonneg: "nonneg w \<Longrightarrow> nonneg (snd (fakeResume w))"
  by (simp add: fakeResume_def Let_def nonneg_timer_ops)

lemma fakePause_nonneg: "nonneg w \<Longrightarrow> nonneg (snd (fakePause w))"
  by (simp add: fakePause_def nonneg_timer_ops)

lemma fakeStop_nonneg: "nonneg w \<Longrightarrow> nonneg (snd (fakeStop w))"
  by (simp add: fakeStop_def Let_def nonneg_timer_ops)

lemma fakeSeek_nonneg: "nonneg w \<Longrightarrow> 0 \<le> p \<Longrightarrow> nonneg (snd (fakeSeek p w))"
  by (simp add: fakeSeek_def Let_def nonneg_timer_ops fakeResume_nonneg)

lemma fakePlay_nonneg: "nonneg w \<Longrightarrow> 0 \<le> p \<Longrightarrow> nonneg (snd (fakePlay getInfo v p w))"
  by (auto simp: fakePlay_def Let_def nonneg_def timer_defs split: option.splits)

lemma await_fetch_nonneg:
  "nonneg w \<Longrightarrow> nonneg (snd (rest w)) \<Longrightarrow> nonneg (snd (await_fetch r rest w))"
  by (simp add: await_fetch_def split: promise.splits)

lemma with_status_nonneg: "nonneg (snd r) \<Longrightarrow> nonneg (snd (with_status st r))"
  by (simp add: with_status_def)

lemma pause_nonneg: "nonneg w \<Longrightarrow> nonneg (snd (pause fetch w))"
  by (simp add: pause_def doPause_def with_status_nonneg await_fetch_nonneg fakePause_nonneg)

lemma timeoutCallback_nonneg:
  assumes "nonneg w"
  shows "nonneg (timeoutCallback (pause fetch) player_next w)"
proof -
  have "nonneg (snd (pause fetch w))" using assms by (rule pause_nonneg)
  then show ?thesis
    by (cases "pause fetch w"; cases "fst (pause fetch w)")
       (simp_all add: timeoutCallback_def player_next_def Let_def nonneg_timer_ops)
qed

lemma step_nonneg:
  assumes "nonneg w" and "position_nonneg e" and "step e w = Some w'"
  shows "nonneg w'"
proof (cases e)
  case (Play fetch getInfo v p)
  then show ?thesis using assms
    by (auto simp: play_def doPlay_def with_status_nonneg await_fetch_nonneg fakePlay_nonneg)
next
  case (Pause fetch)
  then show ?thesis using assms by (auto simp: pause_nonneg)
next
  case (Resume fetch)
  then show ?thesis using assms
    by (auto simp: resume_def doResume_def with_status_nonneg await_fetch_nonneg
          fakeResume_nonneg)
next
  case (Stop fetch)
  then show ?thesis using assms
    by (auto simp: stop_def doStop_def with_status_nonneg await_fetch_nonneg fakeStop_nonneg)
next
  case (Seek fetch p)
  then show ?thesis using assms
    by (auto simp: seek_def doSeek_def await_fetch_nonneg fakeSeek_nonneg)
next
  case (SetVolume fetch vol)
  then show ?thesis using assms by (auto simp: setVolume_def doSetVolume_def Let_def)
next
  case (Tick d)
  then show ?thesis using assms by (auto simp: tick_def nonneg_def split: if_splits)
next
  case (Fire fetch)
  then show ?thesis using assms
    by (auto simp: fire_def timeoutCallback_nonneg split: option.splits)
qed

lemma run_nonneg:
  "nonneg w \<Longrightarrow> list_all position_nonneg es \<Longrightarrow> run es w = Some w' \<Longrightarrow> nonneg w'"
proof (induction es arbitrary: w)
  case Nil
  then show ?case by simp
next
  case (Cons e es)
  then show ?case by (auto split: option.splits dest: step_nonneg)
qed

lemma nonneg_constructor: "nonneg (constructor now)"
  by (simp add: nonneg_def constructor_def timer_new_def)

lemma nonneg_position: "nonneg w \<Longrightarrow> 0 \<le> doGetPosition w"
  by (auto simp: nonneg_def doGetPosition_def timer_ms_def)

subsection \<open>Concrete runs of the remote call and of the player\<close>

lemma reachable_resolves:
  "result (resilientFetch reachable url 5 30000) = Resolved (Some ''OK'')"
  by (simp add: resilientFetch_def resilientFetch_loop.simps reachable_def attempt_body_def)

lemma unreachable_rejects:
  "result (resilientFetch unreachable url 5 30000)
     = Rejected (JsError ''Error'' ''Failed after 5 attempts: fetch failed'')"
proof -
  have five: "show_number 5 = ''5''" by code_simp
  have "result (resilientFetch_loop unreachable url 5 1)
          = result (resilientFetch_loop unreachable url 5 5)"
    using loop_skips_failures[of 1 5 5 unreachable url]
    by (simp add: unreachable_def attempt_body_def)
  then show ?thesis
    using loop_gives_up(1)[of 5 5 unreachable url "JsError ''TypeError'' ''fetch failed''"]
    by (simp add: resilientFetch_def unreachable_def attempt_body_def five)
qed

lemma playing_A_fields:
  "status playing_A = PLAYING" "seekOffset playing_A = 0" "duration playing_A = 10"
  "timer playing_A = \<lparr>phase = Running, since = 0, elapsed = 0\<rparr>"
  "timeout playing_A = Some 0" "pending playing_A = [\<lparr>handle = 0, armed_at = 0, delay = 11000\<rparr>]"
  "nextHandle playing_A = 1" "clock playing_A = 0" "nextCalls playing_A = 0"
  by (simp_all add: playing_A_def play_def doPlay_def await_fetch_def reachable_resolves
        with_status_def fakePlay_def ten_seconds_def constructor_def Let_def timer_defs
        startTimeout_def resetTimeout_def)

lemma one_pending_playing_A: "one_pending playing_A"
  by (simp add: one_pending_def playing_A_fields)


section \<open>The mirrored remote call and the local transition\<close>

lemma await_fetch_fails:
  assumes "\<forall>i. 1 \<le> i \<and> i \<le> 5 \<longrightarrow> (\<exists>e. attempt_body (fetch url (nat i)) = Rejected e)"
  shows "\<exists>e. await_fetch (resilientFetch fetch url 5 30000) rest w = (Rejected e, w)"
proof -
  from all_attempts_fail[of fetch url] assms obtain e
    where "result (resilientFetch fetch url 5 30000) = Rejected e" by blast
  then show ?thesis by (simp add: await_fetch_def)
qed

text \<open>
  C1, as stated, fails: with the endpoint unreachable, \<open>doPause\<close> on a playing player
  rejects with the error of the remote call and changes nothing, although the local
  effect \<open>#fakePause\<close> would change the state: the timer keeps running and the
  end-of-video callback stays armed.
\<close>

theorem doPause_unreachable_counterexample:
  "doPause unreachable playing_A
     = (Rejected (JsError ''Error'' ''Failed after 5 attempts: fetch failed''), playing_A)
   \<and> snd (fakePause playing_A) \<noteq> playing_A
   \<and> phase (timer (snd (doPause unreachable playing_A))) = Running
   \<and> pending (snd (doPause unreachable playing_A)) = [\<lparr>handle = 0, armed_at = 0, delay = 11000\<rparr>]"
proof -
  have rejected: "doPause unreachable playing_A
      = (Rejected (JsError ''Error'' ''Failed after 5 attempts: fetch failed''), playing_A)"
    by (simp add: doPause_def await_fetch_def unreachable_rejects)
  have "timeout (snd (fakePause playing_A)) \<noteq> timeout playing_A"
    by (simp add: fakePause_def playing_A_fields)
  then have changed: "snd (fakePause playing_A) \<noteq> playing_A"
    by auto
  show ?thesis
    using changed by (simp add: rejected playing_A_fields)
qed

text \<open>
  C1, amended: for pause, resume, stop, seek and play the mirrored call guards the local
  transition. When the awaited remote call rejects, the operation rejects with that
  same error and the state is left as it was; when it resolves, the operation is its
  local effect. Only \<open>doSetVolume\<close>, which does not await the call, applies its local
  effect whatever the network does.
\<close>

theorem remote_call_guards_transition:
  "((\<forall>i. 1 \<le> i \<and> i \<le> 5 \<longrightarrow>
        (\<exists>x. attempt_body (fetch ''http://localhost:1984/pause'' (nat i)) = Rejected x))
      \<longrightarrow> (\<exists>x. doPause fetch w = (Rejected x, w)))
 \<and> ((\<forall>i. 1 \<le> i \<and> i \<le> 5 \<longrightarrow>
        (\<exists>x. attempt_body (fetch ''http://localhost:1984/resume'' (nat i)) = Rejected x))
      \<longrightarrow> (\<exists>x. doResume fetch w = (Rejected x, w)))
 \<and> ((\<forall>i. 1 \<le> i \<and> i \<le> 5 \<longrightarrow>
        (\<exists>x. attempt_body (fetch ''http://localhost:1984/stop'' (nat i)) = Rejected x))
      \<longrightarrow> (\<exists>x. doStop fetch w = (Rejected x, w)))
 \<and> ((\<forall>i. 1 \<le> i \<and> i \<le> 5 \<longrightarrow>
        (\<exists>x. attempt_body
               (fetch (''http://localhost:1984/seek/'' @ show_number position) (nat i))
             = Rejected x))
      \<longrightarrow> (\<exists>x. doSeek fetch position w = (Rejected x, w)))
 \<and> ((\<forall>i. 1 \<le> i \<and> i \<le> 5 \<longrightarrow>
        (\<exists>x. attempt_body (fetch (''http://localhost:1984/play/'' @ video_id v) (nat i))
             = Rejected x))
      \<longrightarrow> (\<exists>x. doPlay fetch getInfo v position w = (Rejected x, w)))
 \<and> (result (resilientFetch fetch ''http://localhost:1984/pause'' 5 30000) = Rejected e
      \<longrightarrow> doPause fetch w = (Rejected e, w))
 \<and> (result (resilientFetch fetch ''http://localhost:1984/resume'' 5 30000) = Rejected e
      \<longrightarrow> doResume fetch w = (Rejected e, w))
 \<and> (result (resilientFetch fetch ''http://localhost:1984/stop'' 5 30000) = Rejected e
      \<longrightarrow> doStop fetch w = (Rejected e, w))
 \<and> (result (resilientFetch fetch (''http://localhost:1984/seek/'' @ show_number position)
        5 30000) = Rejected e
      \<longrightarrow> doSeek fetch position w = (Rejected e, w))
 \<and> (result (resilientFetch fetch (''http://localhost:1984/play/'' @ video_id v) 5 30000)
        = Rejected e
      \<longrightarrow> doPlay fetch getInfo v position w = (Rejected e, w))
 \<and> (result (resilientFetch fetch ''http://localhost:1984/pause'' 5 30000) = Resolved body
      \<longrightarrow> doPause fetch w = fakePause w)
 \<and> (result (resilientFetch fetch ''http://localhost:1984/resume'' 5 30000) = Resolved body
      \<longrightarrow> doResume fetch w = fakeResume w)
 \<and> (result (resilientFetch fetch ''http://localhost:1984/stop'' 5 30000) = Resolved body
      \<longrightarrow> doStop fetch w = fakeStop w)
 \<and> (result (resilientFetch fetch (''http://localhost:1984/seek/'' @ show_number position)
        5 30000) = Resolved body
      \<longrightarrow> doSeek fetch position w = fakeSeek position w)
 \<and> (result (resilientFetch fetch (''http://localhost:1984/play/'' @ video_id v) 5 30000)
        = Resolved body
      \<longrightarrow> doPlay fetch getInfo v position w = fakePlay getInfo v position w)
 \<and> doSetVolume fetch vol w = (Resolved True, w\<lparr>volume := vol\<rparr>)"
proof -
  have gated: "(result (resilientFetch fetch url 5 30000) = Rejected e
        \<longrightarrow> await_fetch (resilientFetch fetch url 5 30000) rest w = (Rejected e, w))
      \<and> (result (resilientFetch fetch url 5 30000) = Resolved body
        \<longrightarrow> await_fetch (resilientFetch fetch url 5 30000) rest w = rest w)" for url rest
    by (simp add: await_fetch_def)
  show ?thesis
    unfolding doPause_def doResume_def doStop_def doSeek_def doPlay_def
    using gated await_fetch_fails[of fetch _ _ w]
    by (simp add: doSetVolume_def)
qed

theorem remote_call_guards_transition_witness:
  "attempt_body (unreachable ''http://localhost:1984/pause'' 1)
     = Rejected (JsError ''TypeError'' ''fetch failed'')
   \<and> doPause unreachable playing_A
     = (Rejected (JsError ''Error'' ''Failed after 5 attempts: fetch failed''), playing_A)
   \<and> doResume unreachable playing_A
     = (Rejected (JsError ''Error'' ''Failed after 5 attempts: fetch failed''), playing_A)
   \<and> doStop unreachable playing_A
     = (Rejected (JsError ''Error'' ''Failed after 5 attempts: fetch failed''), playing_A)
   \<and> doSeek unreachable 7 playing_A
     = (Rejected (JsError ''Error'' ''Failed after 5 attempts: fetch failed''), playing_A)
   \<and> doPlay unreachable ten_seconds (Video ''B'') 7 playing_A
     = (Rejected (JsError ''Error'' ''Failed after 5 attempts: fetch failed''), playing_A)
   \<and> doPause reachable playing_A = fakePause playing_A
   \<and> doResume reachable playing_A = fakeResume playing_A
   \<and> doStop reachable playing_A = fakeStop playing_A
   \<and> doSeek reachable 7 playing_A = fakeSeek 7 playing_A
   \<and> doPlay reachable ten_seconds (Video ''B'') 7 playing_A
       = fakePlay ten_seconds (Video ''B'') 7 playing_A
   \<and> doSetVolume unreachable \<lparr>level = 80, muted = False\<rparr> playing_A
       = (Resolved True, playing_A\<lparr>volume := \<lparr>level = 80, muted = False\<rparr>\<rparr>)"
  using remote_call_guards_transition[where fetch = unreachable and w = playing_A
      and e = "JsError ''Error'' ''Failed after 5 attempts: fetch failed''"
      and body = "Some ''OK''" and position = 7 and v = "Video ''B''" and getInfo = ten_seconds
      and vol = "\<lparr>level = 80, muted = False\<rparr>"]
    remote_call_guards_transition[where fetch = reachable and w = playing_A
      and e = "JsError ''Error'' ''Failed after 5 attempts: fetch failed''"
      and body = "Some ''OK''" and position = 7 and v = "Video ''B''" and getInfo = ten_seconds
      and vol = "\<lparr>level = 80, muted = False\<rparr>"]
  by (simp add: unreachable_rejects reachable_resolves unreachable_def attempt_body_def)


section \<open>Play without metadata\<close>





section \<open>Scheduling the end-of-video callback\<close>

lemma callback_after_pause:
  assumes "pause_m w = (Resolved b, w1)"
  shows "timeoutCallback pause_m next_m w
     = snd (next_m (w1\<lparr>seekOffset := 0,
                          timer := timer_clear (timer_stop (clock w1) (timer w1))\<rparr>))"
  using assms by (simp add: timeoutCallback_def Let_def)

lemma callback_without_pause:
  "pause_m w = (Rejected e, w1) \<Longrightarrow> timeoutCallback pause_m next_m w = w1"
  "pause_m w = (Pending, w1) \<Longrightarrow> timeoutCallback pause_m next_m w = w1"
  by (simp_all add: timeoutCallback_def)

lemma setTimeout_delay_cases:
  "setTimeout_delay ms = (if 1 \<le> ms \<and> ms \<le> 2147483647 then ms else 1)"
  by (simp add: setTimeout_delay_def)

lemma setTimeout_delay_positive: "1 \<le> setTimeout_delay ms"
  by (simp add: setTimeout_delay_def)

lemma not_before_due:
  assumes "one_pending w" and "int d < setTimeout_delay ((afterSeconds + 1) * 1000)"
  shows "run [Tick d, Fire fetch] (startTimeout afterSeconds w) = None"
proof -
  have p1: "pending (startTimeout afterSeconds w)
      = [\<lparr>handle = nextHandle w, armed_at = clock w, delay = (afterSeconds + 1) * 1000\<rparr>]"
    using startTimeout_one_pending(1)[OF assms(1)] .
  show ?thesis using assms(2) p1 by (simp add: tick_def fire_def due_def)
qed

lemma fires_when_due:
  assumes "one_pending w"
    and "result (resilientFetch fetch ''http://localhost:1984/pause'' 5 30000) = Resolved body"
  shows "\<exists>w'. run [Tick (nat (setTimeout_delay ((afterSeconds + 1) * 1000))), Fire fetch]
               (startTimeout afterSeconds w) = Some w'
           \<and> status w' = PAUSED \<and> seekOffset w' = 0 \<and> timer w' = timer_new
           \<and> pending w' = [] \<and> timeout w' = None \<and> nextCalls w' = Suc (nextCalls w)
           \<and> clock w' = clock w + setTimeout_delay ((afterSeconds + 1) * 1000)
           \<and> fire fetch w' = None"
proof -
  define w1 where "w1 = startTimeout afterSeconds w"
  define wait where "wait = setTimeout_delay ((afterSeconds + 1) * 1000)"
  have pos: "1 \<le> wait" unfolding wait_def by (rule setTimeout_delay_positive)
  have p1: "pending w1
      = [\<lparr>handle = nextHandle w, armed_at = clock w, delay = (afterSeconds + 1) * 1000\<rparr>]"
    using startTimeout_one_pending(1)[OF assms(1)] by (simp add: w1_def)
  define w2 where "w2 = w1\<lparr>clock := clock w + wait\<rparr>"
  have t: "tick (nat wait) w1 = Some w2"
    using pos p1 by (simp add: tick_def w2_def due_def wait_def w1_def)
  define w3 where "w3 = w2\<lparr>pending := []\<rparr>"
  have to: "timeout w3 = Some (nextHandle w)"
    by (simp add: w3_def w2_def w1_def)
  have pz: "pause fetch w3 = (Resolved True,
      w3\<lparr>timer := timer_pause (clock w3) (timer w3), pending := [], timeout := None,
         status := PAUSED\<rparr>)"
    using assms(2) to
    by (simp add: pause_def doPause_def await_fetch_def with_status_def fakePause_def
          resetTimeout_def clearTimeout_def w3_def)
  define w4 where "w4 = timeoutCallback (pause fetch) player_next w3"
  have f: "fire fetch w2 = Some w4"
    using p1 by (simp add: fire_def w2_def w3_def w4_def due_def wait_def)
  have w4: "status w4 = PAUSED" "seekOffset w4 = 0" "timer w4 = timer_new" "pending w4 = []"
    "timeout w4 = None" "nextCalls w4 = Suc (nextCalls w)" "clock w4 = clock w + wait"
    unfolding w4_def callback_after_pause[where pause_m = "pause fetch" and w = w3, OF pz]
    by (simp_all add: player_next_def timer_defs w3_def w2_def w1_def)
  have again: "fire fetch w4 = None"
    using w4(4) by (simp add: fire_def)
  show ?thesis
    using t f w4 again unfolding w1_def[symmetric] wait_def[symmetric]
    by simp
qed

lemma fires_without_pause:
  assumes "one_pending w"
    and "result (resilientFetch fetch ''http://localhost:1984/pause'' 5 30000) = Rejected e"
  shows "\<exists>w'. run [Tick (nat (setTimeout_delay ((afterSeconds + 1) * 1000))), Fire fetch]
               (startTimeout afterSeconds w) = Some w'
           \<and> status w' = status w \<and> seekOffset w' = seekOffset w \<and> timer w' = timer w
           \<and> nextCalls w' = nextCalls w \<and> pending w' = []
           \<and> fire fetch w' = None"
proof -
  define w1 where "w1 = startTimeout afterSeconds w"
  define wait where "wait = setTimeout_delay ((afterSeconds + 1) * 1000)"
  have pos: "1 \<le> wait" unfolding wait_def by (rule setTimeout_delay_positive)
  have p1: "pending w1
      = [\<lparr>handle = nextHandle w, armed_at = clock w, delay = (afterSeconds + 1) * 1000\<rparr>]"
    using startTimeout_one_pending(1)[OF assms(1)] by (simp add: w1_def)
  define w2 where "w2 = w1\<lparr>clock := clock w + wait\<rparr>"
  have t: "tick (nat wait) w1 = Some w2"
    using pos p1 by (simp add: tick_def w2_def due_def wait_def w1_def)
  define w3 where "w3 = w2\<lparr>pending := []\<rparr>"
  have pz: "pause fetch w3 = (Rejected e, w3)"
    using assms(2) by (simp add: pause_def doPause_def await_fetch_def with_status_def)
  have f: "fire fetch w2 = Some w3"
    using p1 callback_without_pause(1)[where pause_m = "pause fetch" and w = w3, OF pz]
    by (simp add: fire_def w2_def w3_def due_def wait_def)
  have w3: "status w3 = status w" "seekOffset w3 = seekOffset w" "timer w3 = timer w"
    "nextCalls w3 = nextCalls w" "pending w3 = []"
    by (simp_all add: w3_def w2_def w1_def)
  have again: "fire fetch w3 = None"
    using w3(5) by (simp add: fire_def)
  show ?thesis
    using t f w3 again unfolding w1_def[symmetric] wait_def[symmetric]
    by simp
qed

text \<open>
  C5, as stated, fails twice. The body of the callback awaits \<open>pause()\<close> with nothing to
  catch a rejection: when the mirrored pause fails, the callback fired at the end of a
  video played from position 3 leaves the seek offset at 3 and the timer running, and
  \<open>next()\<close> is not called. And the delay is not \<open>afterSeconds + 1\<close> seconds for every
  value: for \<open>afterSeconds = 2147484\<close> the requested delay exceeds 2147483647
  milliseconds and the callback fires after 1 millisecond, as it does for
  \<open>afterSeconds = -5\<close>.
\<close>

theorem startTimeout_callback_counterexample:
  "map_option seekOffset
     (run [Play reachable ten_seconds (Video ''A'') 3, Tick 8000, Fire unreachable]
        (constructor 0)) = Some 3
 \<and> map_option nextCalls
     (run [Play reachable ten_seconds (Video ''A'') 3, Tick 8000, Fire unreachable]
        (constructor 0)) = Some 0
 \<and> map_option timer
     (run [Play reachable ten_seconds (Video ''A'') 3, Tick 8000, Fire unreachable]
        (constructor 0)) = Some \<lparr>phase = Running, since = 0, elapsed = 0\<rparr>
 \<and> map_option status
     (run [Play reachable ten_seconds (Video ''A'') 3, Tick 8000, Fire unreachable]
        (constructor 0)) = Some PLAYING
 \<and> map_option nextCalls (run [Tick 1, Fire reachable] (startTimeout 2147484 playing_A))
     = Some 1
 \<and> map_option nextCalls (run [Tick 1, Fire reachable] (startTimeout (-5) playing_A))
     = Some 1"
proof -
  have late: "map_option nextCalls (run [Tick 1, Fire reachable] (startTimeout a playing_A))
      = Some 1" if "setTimeout_delay ((a + 1) * 1000) = 1" for a
    using that
    by (simp add: tick_def fire_def due_def startTimeout_def resetTimeout_def clearTimeout_def
          Let_def playing_A_fields timeoutCallback_def pause_def doPause_def await_fetch_def
          reachable_resolves with_status_def fakePause_def player_next_def)
  have skipped: "run [Play reachable ten_seconds (Video ''A'') 3, Tick 8000, Fire unreachable]
        (constructor 0)
      = Some ((snd (play reachable ten_seconds (Video ''A'') 3 (constructor 0)))
               \<lparr>clock := 8000, pending := []\<rparr>)"
    by (simp add: tick_def fire_def due_def setTimeout_delay_def play_def doPlay_def
          await_fetch_def reachable_resolves unreachable_rejects with_status_def fakePlay_def
          ten_seconds_def constructor_def Let_def startTimeout_def resetTimeout_def
          timeoutCallback_def pause_def doPause_def timer_defs)
  show ?thesis
    unfolding skipped
    using late[of 2147484] late[of "-5"]
    by (simp add: setTimeout_delay_def play_def doPlay_def await_fetch_def reachable_resolves
          with_status_def fakePlay_def ten_seconds_def constructor_def Let_def timer_defs)
qed

text \<open>
  C5, amended: \<open>#startTimeout(afterSeconds)\<close> first clears the timer whose handle it holds,
  then arms one new single-shot timer with the delay \<open>(afterSeconds + 1) * 1000\<close>
  milliseconds and keeps its handle; where at most one callback was armed, exactly the
  new one is. The timer is due after that delay when the delay lies between 1 and
  2147483647 milliseconds, and after 1 millisecond otherwise; it cannot fire before
  it is due. The body of the callback first awaits \<open>pause()\<close>. Once that has completed it
  sets the seek offset to 0, stops and clears the timer, and only then calls \<open>next()\<close>, on
  the state so reached; if \<open>pause()\<close> rejects or never settles, nothing more of the body
  is executed. So a callback that fires while the mirrored pause goes through leaves
  the player PAUSED, the seek offset 0, the timer cleared and \<open>next()\<close> called once; one
  that fires while the mirrored pause fails leaves status, seek offset and timer as
  they were and does not call \<open>next()\<close>. In both cases nothing is left to fire again.
\<close>

theorem startTimeout_callback:
  "timeout (startTimeout afterSeconds w) = Some (nextHandle w)
 \<and> pending (startTimeout afterSeconds w)
     = (case timeout w of None \<Rightarrow> pending w | Some h \<Rightarrow> clearTimeout h (pending w))
       @ [\<lparr>handle = nextHandle w, armed_at = clock w, delay = (afterSeconds + 1) * 1000\<rparr>]
 \<and> (one_pending w \<longrightarrow>
      pending (startTimeout afterSeconds w)
        = [\<lparr>handle = nextHandle w, armed_at = clock w, delay = (afterSeconds + 1) * 1000\<rparr>])
 \<and> due \<lparr>handle = nextHandle w, armed_at = clock w, delay = (afterSeconds + 1) * 1000\<rparr>
     = (if 1 \<le> (afterSeconds + 1) * 1000 \<and> (afterSeconds + 1) * 1000 \<le> 2147483647
        then clock w + (afterSeconds + 1) * 1000 else clock w + 1)
 \<and> (pause_m w = (Resolved b, w1) \<longrightarrow>
      timeoutCallback pause_m next_m w
        = snd (next_m (w1\<lparr>seekOffset := 0,
                             timer := timer_clear (timer_stop (clock w1) (timer w1))\<rparr>)))
 \<and> (pause_m w = (Rejected e, w1) \<longrightarrow> timeoutCallback pause_m next_m w = w1)
 \<and> (pause_m w = (Pending, w1) \<longrightarrow> timeoutCallback pause_m next_m w = w1)
 \<and> (one_pending w \<and> int d < setTimeout_delay ((afterSeconds + 1) * 1000) \<longrightarrow>
      run [Tick d, Fire fetch] (startTimeout afterSeconds w) = None)
 \<and> (one_pending w
      \<and> result (resilientFetch fetch ''http://localhost:1984/pause'' 5 30000) = Resolved body
     \<longrightarrow> (\<exists>w'. run [Tick (nat (setTimeout_delay ((afterSeconds + 1) * 1000))), Fire fetch]
                   (startTimeout afterSeconds w) = Some w'
           \<and> status w' = PAUSED \<and> seekOffset w' = 0 \<and> timer w' = timer_new
           \<and> pending w' = [] \<and> timeout w' = None \<and> nextCalls w' = Suc (nextCalls w)
           \<and> clock w' = clock w + setTimeout_delay ((afterSeconds + 1) * 1000)
           \<and> fire fetch w' = None))
 \<and> (one_pending w
      \<and> result (resilientFetch fetch ''http://localhost:1984/pause'' 5 30000) = Rejected e
     \<longrightarrow> (\<exists>w'. run [Tick (nat (setTimeout_delay ((afterSeconds + 1) * 1000))), Fire fetch]
                   (startTimeout afterSeconds w) = Some w'
           \<and> status w' = status w \<and> seekOffset w' = seekOffset w \<and> timer w' = timer w
           \<and> nextCalls w' = nextCalls w \<and> pending w' = []
           \<and> fire fetch w' = None))"
proof -
  have d: "due \<lparr>handle = nextHandle w, armed_at = clock w, delay = (afterSeconds + 1) * 1000\<rparr>
     = (if 1 \<le> (afterSeconds + 1) * 1000 \<and> (afterSeconds + 1) * 1000 \<le> 2147483647
        then clock w + (afterSeconds + 1) * 1000 else clock w + 1)"
    by (simp add: due_def setTimeout_delay_def)
  show ?thesis
    using d startTimeout_pending[of afterSeconds w]
      startTimeout_one_pending(1)[of w afterSeconds]
      callback_after_pause[of pause_m w b w1 next_m]
      callback_without_pause(1)[of pause_m w e w1 next_m]
      callback_without_pause(2)[of pause_m w w1 next_m]
      not_before_due[of w d afterSeconds fetch]
      fires_when_due[of w fetch body afterSeconds]
      fires_without_pause[of w fetch e afterSeconds]
    by (simp del: run.simps)
qed

theorem startTimeout_callback_witness:
  "one_pending playing_A
 \<and> pending (startTimeout 3 playing_A) = [\<lparr>handle = 1, armed_at = 0, delay = 4000\<rparr>]
 \<and> timeout (startTimeout 3 playing_A) = Some 1
 \<and> due \<lparr>handle = 1, armed_at = 0, delay = 4000\<rparr> = 4000
 \<and> run [Tick 3999, Fire reachable] (startTimeout 3 playing_A) = None
 \<and> map_option status (run [Tick 4000, Fire reachable] (startTimeout 3 playing_A)) = Some PAUSED
 \<and> map_option seekOffset (run [Tick 4000, Fire reachable] (startTimeout 3 playing_A)) = Some 0
 \<and> map_option nextCalls (run [Tick 4000, Fire reachable] (startTimeout 3 playing_A)) = Some 1
 \<and> map_option pending (run [Tick 4000, Fire reachable] (startTimeout 3 playing_A)) = Some []
 \<and> map_option status (run [Tick 4000, Fire unreachable] (startTimeout 3 playing_A))
     = Some PLAYING
 \<and> map_option nextCalls (run [Tick 4000, Fire unreachable] (startTimeout 3 playing_A))
     = Some 0
 \<and> nextCalls (timeoutCallback (pause reachable) player_next playing_A) = 1
 \<and> seekOffset (timeoutCallback (pause reachable) player_next playing_A) = 0
 \<and> timeoutCallback (pause unreachable) player_next playing_A = playing_A"
proof -
  have up: "result (resilientFetch reachable ''http://localhost:1984/pause'' 5 30000)
                = Resolved (Some ''OK'')"
    by (rule reachable_resolves)
  have down: "result (resilientFetch unreachable ''http://localhost:1984/pause'' 5 30000)
                = Rejected (JsError ''Error'' ''Failed after 5 attempts: fetch failed'')"
    by (rule unreachable_rejects)
  have paused: "pause reachable playing_A = (Resolved True, snd (pause reachable playing_A))"
    by (simp add: pause_def doPause_def await_fetch_def up with_status_def fakePause_def)
  have failed: "pause unreachable playing_A
      = (Rejected (JsError ''Error'' ''Failed after 5 attempts: fetch failed''), playing_A)"
    by (simp add: pause_def doPause_def await_fetch_def down with_status_def)
  have calls: "nextCalls (snd (pause reachable playing_A)) = 0"
    by (simp add: pause_def doPause_def await_fetch_def up with_status_def fakePause_def
          playing_A_fields)
  have wait: "setTimeout_delay 4000 = 4000" by (simp add: setTimeout_delay_def)
  have body: "timeoutCallback (pause reachable) player_next playing_A
      = snd (player_next ((snd (pause reachable playing_A))\<lparr>seekOffset := 0,
          timer := timer_clear (timer_stop (clock (snd (pause reachable playing_A)))
                     (timer (snd (pause reachable playing_A))))\<rparr>))"
    using startTimeout_callback[where w = playing_A and pause_m = "pause reachable"
        and b = True and ?w1.0 = "snd (pause reachable playing_A)" and next_m = player_next]
      paused
    by simp
  have nobody: "timeoutCallback (pause unreachable) player_next playing_A = playing_A"
    using startTimeout_callback[where w = playing_A and pause_m = "pause unreachable"
        and e = "JsError ''Error'' ''Failed after 5 attempts: fetch failed''"
        and ?w1.0 = playing_A and next_m = player_next]
      failed
    by simp
  have sched: "timeout (startTimeout 3 playing_A) = Some 1
     \<and> pending (startTimeout 3 playing_A) = [\<lparr>handle = 1, armed_at = 0, delay = 4000\<rparr>]
     \<and> due \<lparr>handle = 1, armed_at = 0, delay = 4000\<rparr> = 4000
     \<and> run [Tick 3999, Fire reachable] (startTimeout 3 playing_A) = None
     \<and> (\<exists>w'. run [Tick 4000, Fire reachable] (startTimeout 3 playing_A) = Some w'
           \<and> status w' = PAUSED \<and> seekOffset w' = 0 \<and> pending w' = [] \<and> nextCalls w' = 1)"
    using startTimeout_callback[where w = playing_A and afterSeconds = 3 and d = 3999
        and fetch = reachable and body = "Some ''OK''" and pause_m = "pause reachable"
        and b = True and ?w1.0 = "snd (pause reachable playing_A)" and next_m = player_next
        and e = "JsError ''Error'' ''Failed after 5 attempts: fetch failed''"]
      one_pending_playing_A up wait
    by (auto simp add: playing_A_fields clearTimeout_def simp del: run.simps)
  then obtain w' where w': "run [Tick 4000, Fire reachable] (startTimeout 3 playing_A) = Some w'"
    "status w' = PAUSED" "seekOffset w' = 0" "pending w' = []" "nextCalls w' = 1"
    by blast
  have "\<exists>w''. run [Tick 4000, Fire unreachable] (startTimeout 3 playing_A) = Some w''
           \<and> status w'' = PLAYING \<and> nextCalls w'' = 0"
    using startTimeout_callback[where w = playing_A and afterSeconds = 3 and d = 3999
        and fetch = unreachable and body = "Some ''OK''" and pause_m = "pause unreachable"
        and b = True and ?w1.0 = playing_A and next_m = player_next
        and e = "JsError ''Error'' ''Failed after 5 attempts: fetch failed''"]
      one_pending_playing_A down wait
    by (auto simp add: playing_A_fields simp del: run.simps)
  then obtain w'' where w'': "run [Tick 4000, Fire unreachable] (startTimeout 3 playing_A) = Some w''"
    "status w'' = PLAYING" "nextCalls w'' = 0"
    by blast
  show ?thesis
    using sched one_pending_playing_A calls nobody
    by (simp add: w' w'' body player_next_def del: run.simps)
qed


section \<open>At most one end-of-video callback is armed\<close>

text \<open>
  C6: a new player has no callback armed, and every event (a call of play, pause,
  resume, stop, seek or setVolume, whatever the network and the loader answer, the
  passing of time, and the firing of the callback) preserves that at most one callback
  is armed and that \<open>timeout\<close> holds its handle. Hence after every run from a new player
  at most one callback is armed. Each transition that reschedules (resume, seek while
  PLAYING, play with metadata, and \<open>#startTimeout\<close> itself) leaves exactly one armed.
\<close>

theorem at_most_one_callback:
  "one_pending (constructor now)
 \<and> (run es (constructor now) = Some w \<longrightarrow> one_pending w \<and> length (pending w) \<le> 1)
 \<and> (one_pending w0 \<and> step e w0 = Some w1 \<longrightarrow> one_pending w1 \<and> length (pending w1) \<le> 1)
 \<and> (one_pending w0 \<longrightarrow>
       length (pending (snd (fakeResume w0))) = 1
     \<and> (status w0 = PLAYING \<longrightarrow> length (pending (snd (fakeSeek p w0))) = 1)
     \<and> (getInfo v \<noteq> None \<longrightarrow> length (pending (snd (fakePlay getInfo v p w0))) = 1)
     \<and> length (pending (startTimeout d w0)) = 1)"
  using one_pending_constructor[of now]
    run_one_pending[OF one_pending_constructor, of es now w]
    step_one_pending[of w0 e w1]
    one_pending_length[of w] one_pending_length[of w1]
    fakeResume_one_pending(2)[of w0] fakeSeek_one_pending(2)[of w0 p]
    fakePlay_one_pending(2)[of w0 getInfo v p] startTimeout_one_pending(1)[of w0 d]
  by auto

theorem at_most_one_callback_witness:
  "run [Play reachable ten_seconds (Video ''A'') 0] (constructor 0) = Some playing_A
 \<and> one_pending playing_A
 \<and> step (Seek reachable 7) playing_A = Some (snd (seek reachable 7 playing_A))
 \<and> one_pending (snd (seek reachable 7 playing_A))
 \<and> length (pending (snd (seek reachable 7 playing_A))) \<le> 1
 \<and> status playing_A = PLAYING
 \<and> length (pending (snd (fakeSeek 7 playing_A))) = 1
 \<and> length (pending (snd (fakeResume playing_A))) = 1
 \<and> ten_seconds (Video ''A'') \<noteq> None
 \<and> length (pending (snd (fakePlay ten_seconds (Video ''A'') 7 playing_A))) = 1
 \<and> length (pending (startTimeout 3 playing_A)) = 1"
proof -
  have i: "ten_seconds (Video ''A'') \<noteq> None" by (simp add: ten_seconds_def)
  have r: "run [Play reachable ten_seconds (Video ''A'') 0] (constructor 0) = Some playing_A"
    by (simp add: playing_A_def)
  have s: "step (Seek reachable 7) playing_A = Some (snd (seek reachable 7 playing_A))"
    by simp
  show ?thesis
    using at_most_one_callback[where now = 0 and w = playing_A and ?w0.0 = playing_A
        and es = "[Play reachable ten_seconds (Video ''A'') 0]" and e = "Seek reachable 7"
        and ?w1.0 = "snd (seek reachable 7 playing_A)" and p = 7 and getInfo = ten_seconds
        and v = "Video ''A''" and d = 3]
      r s i playing_A_fields(1)
    by (simp del: run.simps step.simps)
qed


section \<open>Bounds on the reported position\<close>

text \<open>
  C7, as stated, fails: the requested position is stored as it comes. A seek to 7 on a
  new player (duration 0) reports position 7; on a playing video of 10 seconds a seek
  to 25 reports 25; a seek to \<open>-5\<close> reports \<open>-5\<close>.
\<close>

theorem position_bounds_counterexample:
  "map_option within_bounds (run [Seek reachable 7] (constructor 0)) = Some False
 \<and> map_option doGetPosition (run [Seek reachable 7] (constructor 0)) = Some 7
 \<and> map_option doGetDuration (run [Seek reachable 7] (constructor 0)) = Some 0
 \<and> map_option within_bounds
      (run [Play reachable ten_seconds (Video ''A'') 0, Seek reachable 25] (constructor 0))
      = Some False
 \<and> map_option within_bounds (run [Seek reachable (-5)] (constructor 0)) = Some False"
  by (simp add: within_bounds_def seek_def doSeek_def play_def doPlay_def await_fetch_def
        with_status_def reachable_resolves fakeSeek_def fakeResume_def fakePlay_def
        ten_seconds_def constructor_def doGetPosition_def doGetDuration_def Let_def timer_defs)

lemma seconds_le: "int d \<le> x * 1000 \<Longrightarrow> int d div 1000 \<le> x"
  by linarith

lemma stretch_bound:
  assumes "int d \<le> setTimeout_delay ((dd - p + 1) * 1000)" and "p \<le> dd + 1"
  shows "p + int d div 1000 \<le> dd + 1"
proof (cases "1 \<le> (dd - p + 1) * 1000 \<and> (dd - p + 1) * 1000 \<le> 2147483647")
  case True
  then have "int d \<le> (dd - p + 1) * 1000" using assms(1) by (simp add: setTimeout_delay_def)
  then have "int d div 1000 \<le> dd - p + 1" by (rule seconds_le)
  then show ?thesis by simp
next
  case False
  then have "int d \<le> 1" using assms(1) by (auto simp: setTimeout_delay_def)
  then have "int d div 1000 = 0" by simp
  then show ?thesis using assms(2) by simp
qed

lemma play_stretch:
  assumes "getInfo v = Some info"
    and "result (resilientFetch fetch (''http://localhost:1984/play/'' @ video_id v) 5 30000)
           = Resolved body"
    and "run [Play fetch getInfo v p, Tick d] w = Some w'"
    and "p \<le> doGetDuration w' + 1"
  shows "doGetPosition w' \<le> doGetDuration w' + 1"
proof -
  define dd where "dd = (case info_duration info of None \<Rightarrow> 0 | Some x \<Rightarrow> x)"
  define w1 where "w1 = snd (play fetch getInfo v p w)"
  have t: "tick d w1 = Some w'" using assms(3) by (simp add: w1_def split: option.splits)
  have w1: "seekOffset w1 = p" "duration w1 = dd" "clock w1 = clock w"
     "timer w1 = \<lparr>phase = Running, since = clock w, elapsed = 0\<rparr>"
     "\<lparr>handle = nextHandle w, armed_at = clock w, delay = (dd - p + 1) * 1000\<rparr> \<in> set (pending w1)"
    using assms(1,2)
    by (simp_all add: w1_def dd_def play_def doPlay_def await_fetch_def with_status_def
          fakePlay_def Let_def timer_defs startTimeout_def)
  from t have w': "w' = w1\<lparr>clock := clock w1 + int d\<rparr>"
    and notdue: "\<forall>x\<in>set (pending w1). clock w1 + int d \<le> due x"
    by (auto simp: tick_def list_all_iff split: if_splits)
  from notdue w1(5)
  have "clock w1 + int d
          \<le> due \<lparr>handle = nextHandle w, armed_at = clock w, delay = (dd - p + 1) * 1000\<rparr>"
    by blast
  then have wait: "int d \<le> setTimeout_delay ((dd - p + 1) * 1000)"
    using w1(3) by (simp add: due_def)
  have "p \<le> dd + 1" using assms(4) by (simp add: w' w1 doGetDuration_def)
  from stretch_bound[OF wait this] show ?thesis
    by (simp add: w' w1 doGetPosition_def doGetDuration_def timer_ms_def)
qed

lemma seek_stretch:
  assumes "status w = PLAYING"
    and "result (resilientFetch fetch (''http://localhost:1984/seek/'' @ show_number p) 5 30000)
           = Resolved body"
    and "run [Seek fetch p, Tick d] w = Some w'"
    and "p \<le> doGetDuration w' + 1"
  shows "doGetPosition w' \<le> doGetDuration w' + 1"
proof -
  define w1 where "w1 = snd (seek fetch p w)"
  have t: "tick d w1 = Some w'" using assms(3) by (simp add: w1_def split: option.splits)
  have w1: "seekOffset w1 = p" "duration w1 = duration w" "clock w1 = clock w"
     "timer w1 = \<lparr>phase = Running, since = clock w, elapsed = 0\<rparr>"
     "\<lparr>handle = nextHandle w, armed_at = clock w, delay = (duration w - p + 1) * 1000\<rparr>
        \<in> set (pending w1)"
    using assms(1,2)
    by (simp_all add: w1_def seek_def doSeek_def await_fetch_def
          fakeSeek_def fakeResume_def Let_def timer_defs startTimeout_def)
  from t have w': "w' = w1\<lparr>clock := clock w1 + int d\<rparr>"
    and notdue: "\<forall>x\<in>set (pending w1). clock w1 + int d \<le> due x"
    by (auto simp: tick_def list_all_iff split: if_splits)
  from notdue w1(5)
  have "clock w1 + int d
          \<le> due \<lparr>handle = nextHandle w, armed_at = clock w,
                   delay = (duration w - p + 1) * 1000\<rparr>"
    by blast
  then have wait: "int d \<le> setTimeout_delay ((duration w - p + 1) * 1000)"
    using w1(3) by (simp add: due_def)
  have "p \<le> duration w + 1" using assms(4) by (simp add: w' w1 doGetDuration_def)
  from stretch_bound[OF wait this] show ?thesis
    by (simp add: w' w1 doGetPosition_def doGetDuration_def timer_ms_def)
qed

text \<open>
  C7, amended: after every run from a new player in which no play or seek asks for a
  negative position, the reported position is at least 0. The reported position is at
  most the duration plus one after a play that found its metadata, and after a seek
  made while PLAYING, when the requested position is itself at most the duration plus
  one, for as long as nothing else is called and the callback armed by that transition
  is not overdue.
\<close>

theorem position_bounds:
  "(list_all position_nonneg es \<and> run es (constructor now) = Some w \<longrightarrow> 0 \<le> doGetPosition w)
 \<and> (getInfo v = Some info
      \<and> result (resilientFetch fetch (''http://localhost:1984/play/'' @ video_id v) 5 30000)
          = Resolved body
      \<and> run [Play fetch getInfo v p, Tick d] w0 = Some w1
      \<and> p \<le> doGetDuration w1 + 1
     \<longrightarrow> doGetPosition w1 \<le> doGetDuration w1 + 1)
 \<and> (status w0 = PLAYING
      \<and> result (resilientFetch fetch (''http://localhost:1984/seek/'' @ show_number p) 5 30000)
          = Resolved body
      \<and> run [Seek fetch p, Tick d] w0 = Some w2
      \<and> p \<le> doGetDuration w2 + 1
     \<longrightarrow> doGetPosition w2 \<le> doGetDuration w2 + 1)"
  using run_nonneg[OF nonneg_constructor, of es now w] nonneg_position[of w]
    play_stretch[of getInfo v info fetch body p d w0 w1]
    seek_stretch[of w0 fetch p body d w2]
  by blast

theorem position_bounds_witness:
  "list_all position_nonneg [Play reachable ten_seconds (Video ''A'') 0]
 \<and> run [Play reachable ten_seconds (Video ''A'') 0] (constructor 0) = Some playing_A
 \<and> 0 \<le> doGetPosition playing_A
 \<and> run [Play reachable ten_seconds (Video ''A'') 3, Tick 8000] playing_A
     = Some ((snd (play reachable ten_seconds (Video ''A'') 3 playing_A))\<lparr>clock := 8000\<rparr>)
 \<and> doGetPosition ((snd (play reachable ten_seconds (Video ''A'') 3 playing_A))\<lparr>clock := 8000\<rparr>)
     \<le> doGetDuration ((snd (play reachable ten_seconds (Video ''A'') 3 playing_A))\<lparr>clock := 8000\<rparr>) + 1
 \<and> run [Seek reachable 7, Tick 4000] playing_A
     = Some ((snd (seek reachable 7 playing_A))\<lparr>clock := 4000\<rparr>)
 \<and> doGetPosition ((snd (seek reachable 7 playing_A))\<lparr>clock := 4000\<rparr>)
     \<le> doGetDuration ((snd (seek reachable 7 playing_A))\<lparr>clock := 4000\<rparr>) + 1"
proof -
  have a: "list_all position_nonneg [Play reachable ten_seconds (Video ''A'') 0]" by simp
  have r: "run [Play reachable ten_seconds (Video ''A'') 0] (constructor 0) = Some playing_A"
    by (simp add: playing_A_def)
  have i: "ten_seconds (Video ''A'') = Some (VideoInfo ''Song'' (Some 10))"
    by (simp add: ten_seconds_def)
  have up: "result (resilientFetch reachable (''http://localhost:1984/play/'' @ video_id (Video ''A''))
      5 30000) = Resolved (Some ''OK'')"
    "result (resilientFetch reachable (''http://localhost:1984/seek/'' @ show_number 7)
      5 30000) = Resolved (Some ''OK'')"
    by (rule reachable_resolves)+
  have p: "run [Play reachable ten_seconds (Video ''A'') 3, Tick 8000] playing_A
     = Some ((snd (play reachable ten_seconds (Video ''A'') 3 playing_A))\<lparr>clock := 8000\<rparr>)"
    by (simp add: tick_def play_def doPlay_def await_fetch_def reachable_resolves with_status_def
          fakePlay_def ten_seconds_def Let_def startTimeout_def resetTimeout_def clearTimeout_def
          playing_A_fields due_def setTimeout_delay_def)
  have s: "run [Seek reachable 7, Tick 4000] playing_A
     = Some ((snd (seek reachable 7 playing_A))\<lparr>clock := 4000\<rparr>)"
    by (simp add: tick_def seek_def doSeek_def await_fetch_def reachable_resolves
          fakeSeek_def fakeResume_def Let_def startTimeout_def resetTimeout_def clearTimeout_def
          playing_A_fields due_def setTimeout_delay_def)
  have dp: "doGetDuration
      ((snd (play reachable ten_seconds (Video ''A'') 3 playing_A))\<lparr>clock := 8000\<rparr>) = 10"
    by (simp add: doGetDuration_def play_def doPlay_def await_fetch_def reachable_resolves
          with_status_def fakePlay_def ten_seconds_def Let_def)
  have ds: "doGetDuration ((snd (seek reachable 7 playing_A))\<lparr>clock := 4000\<rparr>) = 10"
    by (simp add: doGetDuration_def seek_def doSeek_def await_fetch_def reachable_resolves
          fakeSeek_def fakeResume_def Let_def playing_A_fields)
  show ?thesis
    using position_bounds[where es = "[Play reachable ten_seconds (Video ''A'') 0]" and now = 0
        and w = playing_A and getInfo = ten_seconds and v = "Video ''A''"
        and info = "VideoInfo ''Song'' (Some 10)" and fetch = reachable and body = "Some ''OK''"
        and p = 3 and d = 8000 and ?w0.0 = playing_A
        and ?w1.0 = "(snd (play reachable ten_seconds (Video ''A'') 3 playing_A))\<lparr>clock := 8000\<rparr>"
        and ?w2.0 = "(snd (seek reachable 7 playing_A))\<lparr>clock := 4000\<rparr>"]
      position_bounds[where es = "[Play reachable ten_seconds (Video ''A'') 0]" and now = 0
        and w = playing_A and getInfo = ten_seconds and v = "Video ''A''"
        and info = "VideoInfo ''Song'' (Some 10)" and fetch = reachable and body = "Some ''OK''"
        and p = 7 and d = 4000 and ?w0.0 = playing_A
        and ?w1.0 = "(snd (play reachable ten_seconds (Video ''A'') 3 playing_A))\<lparr>clock := 8000\<rparr>"
        and ?w2.0 = "(snd (seek reachable 7 playing_A))\<lparr>clock := 4000\<rparr>"]
      a r i up p s dp ds playing_A_fields(1)
    by (simp del: run.simps)
qed

text \<open>
  The bound of C7 is also lost without any out-of-range argument: \<open>#fakeResume\<close> arms the
  callback \<open>duration - seekOffset + 1\<close> seconds from the moment of the resume, although the
  resumed timer already holds the seconds played before the pause. A video of 10 seconds
  played for 5 seconds, paused, resumed and played for 7 more seconds reports position
  12, with the callback due only 4 seconds later.
\<close>

lemma resume_after_pause_overruns:
  "map_option doGetPosition
     (run [Play reachable ten_seconds (Video ''A'') 0, Tick 5000, Pause reachable,
           Resume reachable, Tick 7000] (constructor 0)) = Some 12
 \<and> map_option doGetDuration
     (run [Play reachable ten_seconds (Video ''A'') 0, Tick 5000, Pause reachable,
           Resume reachable, Tick 7000] (constructor 0)) = Some 10
 \<and> map_option pending
     (run [Play reachable ten_seconds (Video ''A'') 0, Tick 5000, Pause reachable,
           Resume reachable, Tick 7000] (constructor 0))
     = Some [\<lparr>handle = 1, armed_at = 5000, delay = 11000\<rparr>]"
  by (simp add: tick_def play_def pause_def resume_def doPlay_def doPause_def doResume_def
        await_fetch_def with_status_def reachable_resolves fakePlay_def fakePause_def
        fakeResume_def ten_seconds_def constructor_def doGetPosition_def doGetDuration_def
        Let_def timer_defs startTimeout_def resetTimeout_def clearTimeout_def due_def
        setTimeout_delay_def)


section \<open>Seek\<close>




section \<open>Pause twice\<close>

text \<open>
  C9: once a pause has completed, a second pause, at any later time and whatever the
  network then answers, leaves the state as the first one left it: the reported
  position and the status are those after the first pause. Locally, pausing a timer
  that is not running and clearing an absent callback do nothing and are no errors:
  \<open>#fakePause\<close> after \<open>#fakePause\<close> is \<open>#fakePause\<close>, with result \<open>true\<close>.
\<close>

theorem pause_twice:
  assumes "fst (pause fetch w) = Resolved r"
  shows "snd (pause fetch' ((snd (pause fetch w))\<lparr>clock := clock w + int d\<rparr>))
           = (snd (pause fetch w))\<lparr>clock := clock w + int d\<rparr>
       \<and> doGetPosition (snd (pause fetch' ((snd (pause fetch w))\<lparr>clock := clock w + int d\<rparr>)))
           = doGetPosition (snd (pause fetch w))
       \<and> status (snd (pause fetch' ((snd (pause fetch w))\<lparr>clock := clock w + int d\<rparr>)))
           = status (snd (pause fetch w))
       \<and> status (snd (pause fetch w)) = PAUSED
       \<and> fakePause (snd (fakePause w)) = fakePause w
       \<and> fst (fakePause w) = Resolved True"
proof -
  obtain body where ok: "result (resilientFetch fetch ''http://localhost:1984/pause'' 5 30000)
      = Resolved body"
    using assms
    by (cases "result (resilientFetch fetch ''http://localhost:1984/pause'' 5 30000)")
       (auto simp: pause_def doPause_def await_fetch_def with_status_def)
  define w1 where "w1 = snd (pause fetch w)"
  have w1: "w1 = (resetTimeout (w\<lparr>timer := timer_pause (clock w) (timer w)\<rparr>))\<lparr>status := PAUSED\<rparr>"
    using ok by (simp add: w1_def pause_def doPause_def await_fetch_def with_status_def fakePause_def)
  have facts: "timeout w1 = None" "phase (timer w1) \<noteq> Running" "status w1 = PAUSED"
    by (simp_all add: w1 timer_defs)
  have again: "snd (fakePause (w1\<lparr>clock := clock w + int d\<rparr>)) = w1\<lparr>clock := clock w + int d\<rparr>"
    using facts by (simp add: fakePause_def resetTimeout_def timer_defs)
  have second: "snd (pause fetch' (w1\<lparr>clock := clock w + int d\<rparr>)) = w1\<lparr>clock := clock w + int d\<rparr>"
    using again facts
    by (cases "result (resilientFetch fetch' ''http://localhost:1984/pause'' 5 30000)")
       (simp_all add: pause_def doPause_def await_fetch_def with_status_def fakePause_def)
  have pos: "doGetPosition (w1\<lparr>clock := clock w + int d\<rparr>) = doGetPosition w1"
    using facts by (simp add: doGetPosition_def timer_defs)
  have local: "fakePause (snd (fakePause w)) = fakePause w"
    by (simp add: fakePause_def resetTimeout_def timer_defs split: option.splits)
  show ?thesis
    using second pos local facts(3) unfolding w1_def[symmetric]
    by (simp add: fakePause_def)
qed

theorem pause_twice_witness:
  "fst (pause reachable played_3s) = Resolved True
 \<and> doGetPosition (snd (pause reachable played_3s)) = 3
 \<and> doGetPosition (snd (pause unreachable
       ((snd (pause reachable played_3s))\<lparr>clock := clock played_3s + int 2000\<rparr>))) = 3
 \<and> status (snd (pause unreachable
       ((snd (pause reachable played_3s))\<lparr>clock := clock played_3s + int 2000\<rparr>))) = PAUSED"
proof -
  have first: "fst (pause reachable played_3s) = Resolved True"
    by (simp add: pause_def doPause_def await_fetch_def reachable_resolves with_status_def
          fakePause_def)
  have pos: "doGetPosition (snd (pause reachable played_3s)) = 3"
    by (simp add: pause_def doPause_def await_fetch_def reachable_resolves with_status_def
          fakePause_def doGetPosition_def timer_defs playing_A_fields played_3s_def)
  have twice: "doGetPosition (snd (pause unreachable
       ((snd (pause reachable played_3s))\<lparr>clock := clock played_3s + int 2000\<rparr>)))
         = doGetPosition (snd (pause reachable played_3s))
     \<and> status (snd (pause unreachable
       ((snd (pause reachable played_3s))\<lparr>clock := clock played_3s + int 2000\<rparr>)))
         = status (snd (pause reachable played_3s))
     \<and> status (snd (pause reachable played_3s)) = PAUSED"
    using pause_twice[OF first, of unreachable 2000] by blast
  show ?thesis
    using twice first pos by simp
qed

end
